theory Spec2Isabelle
  imports Complex_Main "HOL-Library.AList" "HOL-Library.Char_ord" "HOL-Library.List_Lexorder"
    "HOL-Library.Product_Lexorder" "HOL-Library.Multiset"
begin

section \<open>Data model\<close>

text \<open>
  The two scripts \<^verbatim>\<open>build_all_tables.py\<close> and \<^verbatim>\<open>make_figures.py\<close> load small CSV files
  into data frames, coerce and sort a few columns, and write the result. A data frame is
  modelled column by column, as the frame library stores it: every column has one dtype,
  either \<^emph>\<open>object\<close> (text cells) or \<^emph>\<open>numeric\<close>. A missing cell (NaN) is \<open>None\<close>.
  Numbers are exact rationals; the rounding of 64-bit floats and the difference between the
  integer and the float dtype are not modelled. Text is a list of 8-bit characters; the string
  methods below are modelled on ASCII text.
\<close>

datatype column = Obj "string option list" | Nums "rat option list"

record dataframe =
  index :: "nat list"
  cols :: "(string \<times> column) list"

datatype error =
    KeyError string
  | ValueError string
  | TypeError string
  | OSError string
  | FileNotFoundError string
  | RenderError string

text \<open>
  The frame library is not part of the repository. What the scripts use of it, and cannot be
  read off their own text, is a parameter of the model: the parser behind
  \<^verbatim>\<open>pd.to_numeric(..., errors="coerce")\<close> (\<open>None\<close> is the NaN it returns for text it does not
  read as a number), the built-in \<^verbatim>\<open>float\<close> that \<^verbatim>\<open>astype(float)\<close> applies to text (\<open>None\<close>
  is its \<^verbatim>\<open>ValueError\<close>), \<^verbatim>\<open>str\<close> of a number, the unstable \<^verbatim>\<open>argsort\<close> behind a one-key
  \<^verbatim>\<open>sort_values\<close>, and the CSV reader and the two renderers.
\<close>

record pandas =
  parse_num :: "string \<Rightarrow> rat option"
  py_float :: "string \<Rightarrow> rat option"
  num_str :: "rat \<Rightarrow> string"
  argsort_num :: "rat list \<Rightarrow> nat list"
  argsort_obj :: "string list \<Rightarrow> nat list"
  read_csv :: "string \<Rightarrow> error + dataframe"
  to_csv :: "dataframe \<Rightarrow> error + string"
  to_latex :: "dataframe \<Rightarrow> error + string"

subsection \<open>String methods\<close>

definition is_space :: "char \<Rightarrow> bool" where
  "is_space c \<longleftrightarrow>
     c \<in> set [CHR 0x09, CHR 0x0A, CHR 0x0B, CHR 0x0C, CHR 0x0D,
              CHR 0x1C, CHR 0x1D, CHR 0x1E, CHR 0x1F, CHR 0x20]"

definition strip :: "string \<Rightarrow> string" where
  "strip s = rev (dropWhile is_space (rev (dropWhile is_space s)))"

definition upper_char :: "char \<Rightarrow> char" where
  "upper_char c =
     (case map_of (zip ''abcdefghijklmnopqrstuvwxyz'' ''ABCDEFGHIJKLMNOPQRSTUVWXYZ'') c of
        Some u \<Rightarrow> u
      | None \<Rightarrow> c)"

definition upper :: "string \<Rightarrow> string" where
  "upper s = map upper_char s"

definition endswith :: "string \<Rightarrow> string \<Rightarrow> bool" where
  "endswith s t \<longleftrightarrow> length t \<le> length s \<and> drop (length s - length t) s = t"


subsection \<open>Scalars and numeric coercion\<close>

text \<open>A single cell as \<^verbatim>\<open>Series.apply\<close> hands it to a function.\<close>

datatype scalar = NA | S string | N rat

definition isna :: "scalar \<Rightarrow> bool" where
  "isna v \<longleftrightarrow> v = NA"

definition py_str :: "pandas \<Rightarrow> scalar \<Rightarrow> string" where
  "py_str L v = (case v of NA \<Rightarrow> ''nan'' | S s \<Rightarrow> s | N q \<Rightarrow> num_str L q)"

fun cells :: "column \<Rightarrow> scalar list" where
  "cells (Obj vs) = map (\<lambda>v. case v of None \<Rightarrow> NA | Some s \<Rightarrow> S s) vs"
| "cells (Nums vs) = map (\<lambda>v. case v of None \<Rightarrow> NA | Some q \<Rightarrow> N q) vs"

fun col_len :: "column \<Rightarrow> nat" where
  "col_len (Obj vs) = length vs"
| "col_len (Nums vs) = length vs"

text \<open>
  \<^verbatim>\<open>pd.to_numeric(series, errors="coerce")\<close>: a numeric column is returned as it is; in an
  object column every text cell is parsed, and a cell that does not parse becomes NaN.
\<close>

fun to_numeric :: "pandas \<Rightarrow> column \<Rightarrow> column" where
  "to_numeric L (Obj vs) =
     Nums (map (\<lambda>v. case v of None \<Rightarrow> None | Some s \<Rightarrow> parse_num L s) vs)"
| "to_numeric L (Nums vs) = Nums vs"

text \<open>\<^verbatim>\<open>Series.astype(str)\<close>: every cell becomes its text; NaN becomes the text \<^verbatim>\<open>nan\<close>.\<close>

definition astype_str :: "pandas \<Rightarrow> column \<Rightarrow> string list" where
  "astype_str L c = map (py_str L) (cells c)"

section \<open>make\_figures.py\<close>

subsection \<open>Figure 1: the compute-cost conversion\<close>

text \<open>
  \<^verbatim>\<open>to_flops_b\<close>, lines 28 to 41. The \<^verbatim>\<open>if/elif\<close> chain that removes one trailing unit
  letter and picks the factor is \<open>strip_unit\<close>; the factor starts at \<open>1\<close> and only a
  trailing \<^verbatim>\<open>M\<close> changes it.
\<close>

definition strip_unit :: "string \<Rightarrow> string \<times> rat" where
  "strip_unit s =
     (if endswith s ''B'' then (butlast s, 1)
      else if endswith s ''G'' then (butlast s, 1)
      else if endswith s ''M'' then (butlast s, 1 / 1000)
      else (s, 1))"

definition to_flops_b :: "pandas \<Rightarrow> scalar \<Rightarrow> rat option" where
  "to_flops_b L val =
     (if isna val then None
      else
        let s = upper (strip (py_str L val));
            (s, factor) = strip_unit s
        in map_option (\<lambda>x. x * factor) (parse_num L s))"

subsection \<open>Figure 3: the sample-count column\<close>


section \<open>Frame operations\<close>

definition nrows :: "dataframe \<Rightarrow> nat" where
  "nrows df = length (index df)"

text \<open>\<^verbatim>\<open>df[name]\<close> raises \<^verbatim>\<open>KeyError\<close> for a column the frame does not have.\<close>

definition getitem :: "dataframe \<Rightarrow> string \<Rightarrow> error + column" where
  "getitem df name =
     (case map_of (cols df) name of None \<Rightarrow> Inl (KeyError name) | Some c \<Rightarrow> Inr c)"

text \<open>
  \<^verbatim>\<open>df[name] = values\<close> replaces the column in place when the frame has it and appends it as
  the last column otherwise.
\<close>

definition setitem :: "dataframe \<Rightarrow> string \<Rightarrow> column \<Rightarrow> dataframe" where
  "setitem df name c = df\<lparr>cols := AList.update name c (cols df)\<rparr>"

definition drop_columns :: "dataframe \<Rightarrow> string \<Rightarrow> error + dataframe" where
  "drop_columns df name =
     (if name \<in> fst ` set (cols df) then Inr (df\<lparr>cols := AList.delete name (cols df)\<rparr>)
      else Inl (KeyError name))"

fun take_col :: "nat list \<Rightarrow> column \<Rightarrow> column" where
  "take_col ix (Obj vs) = Obj (map (\<lambda>i. vs ! i) ix)"
| "take_col ix (Nums vs) = Nums (map (\<lambda>i. vs ! i) ix)"

text \<open>Reordering the rows by an indexer: the row labels travel with the rows.\<close>

definition take_rows :: "dataframe \<Rightarrow> nat list \<Rightarrow> dataframe" where
  "take_rows df ix =
     \<lparr>index = map (\<lambda>i. index df ! i) ix,
      cols = map (\<lambda>(name, c). (name, take_col ix c)) (cols df)\<rparr>"

text \<open>
  A frame as the CSV reader returns it: column names are unique and every column has one cell
  per row.
\<close>

definition wf_frame :: "dataframe \<Rightarrow> bool" where
  "wf_frame df \<longleftrightarrow>
     distinct (map fst (cols df)) \<and> (\<forall>c \<in> snd ` set (cols df). col_len c = nrows df)"

subsection \<open>Sorting by one key\<close>

text \<open>
  \<^verbatim>\<open>df.sort_values(by)\<close> with a single key sorts ascending with NaN last: the positions of
  the cells that are not NaN are ordered by \<^verbatim>\<open>argsort\<close> (quicksort, which need not keep ties in
  input order), and the positions of the NaN cells follow in input order.
\<close>

definition nargsort_with :: "('a list \<Rightarrow> nat list) \<Rightarrow> 'a option list \<Rightarrow> nat list" where
  "nargsort_with asort vs =
     (let idx = [0..<length vs];
          non_nan_idx = filter (\<lambda>i. vs ! i \<noteq> None) idx;
          non_nans = map (\<lambda>i. the (vs ! i)) non_nan_idx;
          nan_idx = filter (\<lambda>i. vs ! i = None) idx
      in map (\<lambda>j. non_nan_idx ! j) (asort non_nans) @ nan_idx)"

fun nargsort :: "pandas \<Rightarrow> column \<Rightarrow> nat list" where
  "nargsort L (Obj vs) = nargsort_with (argsort_obj L) vs"
| "nargsort L (Nums vs) = nargsort_with (argsort_num L) vs"

definition sort_values :: "pandas \<Rightarrow> dataframe \<Rightarrow> string \<Rightarrow> error + dataframe" where
  "sort_values L df by =
     (case getitem df by of
        Inl e \<Rightarrow> Inl e
      | Inr k \<Rightarrow> Inr (take_rows df (nargsort L k)))"

text \<open>What the model asks of \<^verbatim>\<open>argsort\<close>: it returns the positions of its input in sorted order.\<close>

definition argsort_ok :: "('a::linorder list \<Rightarrow> nat list) \<Rightarrow> bool" where
  "argsort_ok asort \<longleftrightarrow>
     (\<forall>ks. mset (asort ks) = mset [0..<length ks] \<and> sorted (map (\<lambda>i. ks ! i) (asort ks)))"

subsection \<open>Sorting by two keys\<close>

text \<open>
  With several keys \<^verbatim>\<open>sort_values\<close> turns every key column into integer labels and sorts the
  positions stably by the tuples of labels. The label of a value is its position among the
  sorted distinct values of the column (its categorical code), reversed for a descending key;
  NaN gets the label after the last one in both directions.
\<close>

definition categories :: "'a::linorder option list \<Rightarrow> 'a list" where
  "categories vs = sort (remdups (map the (filter (\<lambda>v. v \<noteq> None) vs)))"

definition code_of :: "'a::linorder list \<Rightarrow> 'a \<Rightarrow> nat" where
  "code_of cats x = length (filter (\<lambda>u. u < x) cats)"

definition labels :: "bool \<Rightarrow> 'a::linorder option list \<Rightarrow> nat list" where
  "labels ascending vs =
     (let cats = categories vs; n = length cats in
      map (\<lambda>v. case v of
                 None \<Rightarrow> n
               | Some x \<Rightarrow> if ascending then code_of cats x else n - code_of cats x - 1) vs)"

fun col_labels :: "bool \<Rightarrow> column \<Rightarrow> nat list" where
  "col_labels ascending (Obj vs) = labels ascending vs"
| "col_labels ascending (Nums vs) = labels ascending vs"

definition lexsort2 :: "nat list \<Rightarrow> nat list \<Rightarrow> nat list" where
  "lexsort2 l1 l2 = sort_key (\<lambda>i. (l1 ! i, l2 ! i)) [0..<length l1]"

definition sort_values2 ::
  "dataframe \<Rightarrow> string \<Rightarrow> string \<Rightarrow> bool \<Rightarrow> bool \<Rightarrow> error + dataframe" where
  "sort_values2 df by1 by2 asc1 asc2 =
     (case getitem df by1 of
        Inl e \<Rightarrow> Inl e
      | Inr k1 \<Rightarrow>
          (case getitem df by2 of
             Inl e \<Rightarrow> Inl e
           | Inr k2 \<Rightarrow> Inr (take_rows df (lexsort2 (col_labels asc1 k1) (col_labels asc2 k2)))))"

subsection \<open>Regular-expression extraction\<close>

text \<open>
  The patterns the scripts use are sequences of atoms, each repeated a fixed number of times.
  \<^verbatim>\<open>Series.str.extract\<close> with one group yields the text of the first (leftmost) match, NaN when
  there is none.
\<close>

datatype atom = Lit char | Digit

type_synonym regex = "(atom \<times> nat) list"

fun atom_matches :: "atom \<Rightarrow> char \<Rightarrow> bool" where
  "atom_matches (Lit a) c \<longleftrightarrow> a = c"
| "atom_matches Digit c \<longleftrightarrow> c \<in> set ''0123456789''"

fun match_here :: "regex \<Rightarrow> string \<Rightarrow> string option" where
  "match_here [] s = Some []"
| "match_here ((a, 0) # r) s = match_here r s"
| "match_here ((a, Suc n) # r) [] = None"
| "match_here ((a, Suc n) # r) (c # cs) =
     (if atom_matches a c then map_option (\<lambda>m. c # m) (match_here ((a, n) # r) cs) else None)"

fun search :: "regex \<Rightarrow> string \<Rightarrow> string option" where
  "search r [] = match_here r []"
| "search r (c # cs) =
     (case match_here r (c # cs) of Some m \<Rightarrow> Some m | None \<Rightarrow> search r cs)"

definition str_extract :: "regex \<Rightarrow> string list \<Rightarrow> string option list" where
  "str_extract r ss = map (search r) ss"

text \<open>
  \<^verbatim>\<open>astype(float)\<close> on extracted text: NaN stays NaN, text goes through \<^verbatim>\<open>float\<close>, whose
  \<^verbatim>\<open>ValueError\<close> is not caught.
\<close>

fun astype_float :: "pandas \<Rightarrow> string option list \<Rightarrow> error + rat option list" where
  "astype_float L [] = Inr []"
| "astype_float L (None # vs) =
     (case astype_float L vs of Inl e \<Rightarrow> Inl e | Inr r \<Rightarrow> Inr (None # r))"
| "astype_float L (Some s # vs) =
     (case py_float L s of
        None \<Rightarrow> Inl (ValueError s)
      | Some q \<Rightarrow> (case astype_float L vs of Inl e \<Rightarrow> Inl e | Inr r \<Rightarrow> Inr (Some q # r)))"

section \<open>build\_all\_tables.py: the table rules\<close>

text \<open>
  Every \<^verbatim>\<open>build_tableN\<close> reads one CSV file, applies its rule to the frame, and saves the
  result. The rule of each table, the lines between \<^verbatim>\<open>read_csv\<close> and \<^verbatim>\<open>save_table\<close>, is a
  function from frames to frames, or to the exception it raises.
\<close>

definition table1_transform :: "pandas \<Rightarrow> dataframe \<Rightarrow> error + dataframe" where
  "table1_transform L df =
     (case getitem df ''Accuracy (%)'' of
        Inl e \<Rightarrow> Inl e
      | Inr acc \<Rightarrow>
          sort_values2 (setitem df ''Accuracy (%)'' (to_numeric L acc))
            ''Dataset'' ''Accuracy (%)'' True False)"

definition table2_transform :: "pandas \<Rightarrow> dataframe \<Rightarrow> error + dataframe" where
  "table2_transform L df =
     (case getitem df ''Inference Speed (img/s)'' of
        Inl e \<Rightarrow> Inl e
      | Inr speed \<Rightarrow>
          sort_values2 (setitem df ''Inference Speed (img/s)'' (to_numeric L speed))
            ''Hardware'' ''Inference Speed (img/s)'' True False)"

definition table3_transform :: "pandas \<Rightarrow> dataframe \<Rightarrow> error + dataframe" where
  "table3_transform L df =
     (case getitem df ''Year'' of
        Inl e \<Rightarrow> Inl e
      | Inr year \<Rightarrow> sort_values L (setitem df ''Year'' (to_numeric L year)) ''Year'')"

text \<open>Tables 4, 5 and 6 are saved as they are read.\<close>

definition table4_transform :: "pandas \<Rightarrow> dataframe \<Rightarrow> error + dataframe" where
  "table4_transform L df = Inr df"

definition table5_transform :: "pandas \<Rightarrow> dataframe \<Rightarrow> error + dataframe" where
  "table5_transform L df = Inr df"

definition table6_transform :: "pandas \<Rightarrow> dataframe \<Rightarrow> error + dataframe" where
  "table6_transform L df = Inr df"

text \<open>
  Table 7, line 67. The pattern is the raw string \<^verbatim>\<open>r"(\\d{4})"\<close>: in a raw string the two
  backslashes stay two characters, which the pattern syntax reads as one literal backslash,
  and \<^verbatim>\<open>d{4}\<close> is then the letter \<^verbatim>\<open>d\<close> four times. The pattern \<^verbatim>\<open>r"(\d{4})"\<close>, four digits,
  is \<open>year_regex\<close>, for comparison.
\<close>

definition era_regex :: regex where
  "era_regex = [(Lit (CHR 0x5C), 1), (Lit CHR ''d'', 4)]"

definition year_regex :: regex where
  "year_regex = [(Digit, 4)]"

definition table7_transform :: "pandas \<Rightarrow> dataframe \<Rightarrow> error + dataframe" where
  "table7_transform L df =
     (case getitem df ''Era'' of
        Inl e \<Rightarrow> Inl e
      | Inr era \<Rightarrow>
          (case astype_float L (str_extract era_regex (astype_str L era)) of
             Inl e \<Rightarrow> Inl e
           | Inr era_numeric \<Rightarrow>
               (case sort_values L (setitem df ''era_numeric'' (Nums era_numeric))
                       ''era_numeric'' of
                  Inl e \<Rightarrow> Inl e
                | Inr sorted_df \<Rightarrow> drop_columns sorted_df ''era_numeric'')))"

text \<open>
  Figure 2, lines 70 to 75: three coercions and a sort by year (the plotting that follows is
  not modelled).
\<close>

definition figure2_frame :: "pandas \<Rightarrow> dataframe \<Rightarrow> error + dataframe" where
  "figure2_frame L df =
     (case getitem df ''year'' of
        Inl e \<Rightarrow> Inl e
      | Inr year \<Rightarrow>
          let df = setitem df ''year'' (to_numeric L year) in
          (case getitem df ''accuracy_pct'' of
             Inl e \<Rightarrow> Inl e
           | Inr acc \<Rightarrow>
               let df = setitem df ''accuracy_pct'' (to_numeric L acc) in
               (case getitem df ''defect_size_nm'' of
                  Inl e \<Rightarrow> Inl e
                | Inr defect_size \<Rightarrow>
                    sort_values L (setitem df ''defect_size_nm'' (to_numeric L defect_size))
                      ''year'')))"

section \<open>build\_all\_tables.py: reading and saving\<close>

text \<open>
  The scripts read and write files and print to standard output. The world they run in is a
  map from paths to file contents, the set of paths that cannot be opened for writing (a
  missing directory, a permission, a full disk), and the lines printed so far. Paths are
  relative to the repository root; \<^verbatim>\<open>RAW\<close> and \<^verbatim>\<open>OUT\<close> are the two directories of lines 5
  and 6.
\<close>

record world =
  files :: "string \<Rightarrow> string option"
  unwritable :: "string \<Rightarrow> bool"
  stdout :: "string list"

definition RAW :: string where
  "RAW = ''data/raw/''"

definition OUT :: string where
  "OUT = ''output/tables/''"

definition py_print :: "string \<Rightarrow> world \<Rightarrow> world" where
  "py_print line w = w\<lparr>stdout := stdout w @ [line]\<rparr>"

definition write_text :: "string \<Rightarrow> string \<Rightarrow> world \<Rightarrow> world" where
  "write_text path text w = w\<lparr>files := (files w)(path \<mapsto> text)\<rparr>"

text \<open>\<^verbatim>\<open>str(e)\<close> of an exception, as the f-string of line 22 prints it.\<close>

fun error_text :: "error \<Rightarrow> string" where
  "error_text (KeyError m) = m"
| "error_text (ValueError m) = m"
| "error_text (TypeError m) = m"
| "error_text (OSError m) = m"
| "error_text (FileNotFoundError m) = m"
| "error_text (RenderError m) = m"

definition load_csv :: "pandas \<Rightarrow> world \<Rightarrow> string \<Rightarrow> error + dataframe" where
  "load_csv L w path =
     (case files w path of
        None \<Rightarrow> Inl (FileNotFoundError path)
      | Some text \<Rightarrow> read_csv L text)"

text \<open>\<^verbatim>\<open>df.to_csv(path, index=False)\<close>: any failure, of opening or of rendering, is raised.\<close>

definition frame_to_csv :: "pandas \<Rightarrow> dataframe \<Rightarrow> string \<Rightarrow> world \<Rightarrow> error + world" where
  "frame_to_csv L df path w =
     (if unwritable w path then Inl (OSError path)
      else (case to_csv L df of
              Inl e \<Rightarrow> Inl e
            | Inr text \<Rightarrow> Inr (write_text path text w)))"

text \<open>
  The body of the \<^verbatim>\<open>try\<close> of lines 19 and 20: \<^verbatim>\<open>open(tex_path, "w")\<close> truncates the file,
  then the frame is rendered, then the text is written. The result is the exception raised,
  if any, and the world at that point.
\<close>

definition write_latex ::
  "pandas \<Rightarrow> dataframe \<Rightarrow> string \<Rightarrow> world \<Rightarrow> error option \<times> world" where
  "write_latex L df path w =
     (if unwritable w path then (Some (OSError path), w)
      else
        let w1 = write_text path [] w in
        (case to_latex L df of
           Inl e \<Rightarrow> (Some e, w1)
         | Inr text \<Rightarrow> (None, write_text path text w1)))"

definition save_table :: "pandas \<Rightarrow> dataframe \<Rightarrow> string \<Rightarrow> world \<Rightarrow> error + world" where
  "save_table L df name w =
     (let csv_path = OUT @ name @ ''.csv'';
          tex_path = OUT @ name @ ''.tex''
      in case frame_to_csv L df csv_path w of
           Inl e \<Rightarrow> Inl e
         | Inr w1 \<Rightarrow>
             let w2 = (case write_latex L df tex_path w1 of
                         (None, w') \<Rightarrow> w'
                       | (Some e, w') \<Rightarrow>
                           py_print (''Could not write LaTeX for '' @ name @ '': ''
                                     @ error_text e) w')
             in Inr (py_print (''Saved '' @ name @ '' -> '' @ csv_path) w2))"

definition build_table1 :: "pandas \<Rightarrow> world \<Rightarrow> error + world" where
  "build_table1 L w =
     (case load_csv L w (RAW @ ''table1_model_performance.csv'') of
        Inl e \<Rightarrow> Inl e
      | Inr df \<Rightarrow>
          (case table1_transform L df of
             Inl e \<Rightarrow> Inl e
           | Inr df \<Rightarrow> save_table L df ''table1_model_performance'' w))"

definition build_table2 :: "pandas \<Rightarrow> world \<Rightarrow> error + world" where
  "build_table2 L w =
     (case load_csv L w (RAW @ ''table2_hardware_speeds.csv'') of
        Inl e \<Rightarrow> Inl e
      | Inr df \<Rightarrow>
          (case table2_transform L df of
             Inl e \<Rightarrow> Inl e
           | Inr df \<Rightarrow> save_table L df ''table2_hardware_speeds'' w))"

definition build_table3 :: "pandas \<Rightarrow> world \<Rightarrow> error + world" where
  "build_table3 L w =
     (case load_csv L w (RAW @ ''table3_datasets.csv'') of
        Inl e \<Rightarrow> Inl e
      | Inr df \<Rightarrow>
          (case table3_transform L df of
             Inl e \<Rightarrow> Inl e
           | Inr df \<Rightarrow> save_table L df ''table3_datasets'' w))"

definition build_table4 :: "pandas \<Rightarrow> world \<Rightarrow> error + world" where
  "build_table4 L w =
     (case load_csv L w (RAW @ ''table4_challenges.csv'') of
        Inl e \<Rightarrow> Inl e
      | Inr df \<Rightarrow>
          (case table4_transform L df of
             Inl e \<Rightarrow> Inl e
           | Inr df \<Rightarrow> save_table L df ''table4_challenges'' w))"

definition build_table5 :: "pandas \<Rightarrow> world \<Rightarrow> error + world" where
  "build_table5 L w =
     (case load_csv L w (RAW @ ''table5_future_research.csv'') of
        Inl e \<Rightarrow> Inl e
      | Inr df \<Rightarrow>
          (case table5_transform L df of
             Inl e \<Rightarrow> Inl e
           | Inr df \<Rightarrow> save_table L df ''table5_future_research'' w))"

definition build_table6 :: "pandas \<Rightarrow> world \<Rightarrow> error + world" where
  "build_table6 L w =
     (case load_csv L w (RAW @ ''table6_implementation_phases.csv'') of
        Inl e \<Rightarrow> Inl e
      | Inr df \<Rightarrow>
          (case table6_transform L df of
             Inl e \<Rightarrow> Inl e
           | Inr df \<Rightarrow> save_table L df ''table6_implementation_phases'' w))"

definition build_table7 :: "pandas \<Rightarrow> world \<Rightarrow> error + world" where
  "build_table7 L w =
     (case load_csv L w (RAW @ ''table7_evolution_technologies.csv'') of
        Inl e \<Rightarrow> Inl e
      | Inr df \<Rightarrow>
          (case table7_transform L df of
             Inl e \<Rightarrow> Inl e
           | Inr df \<Rightarrow> save_table L df ''table7_evolution_technologies'' w))"

text \<open>The script, lines 73 to 80: the seven builds in order; an exception ends the run.\<close>

fun run_all :: "(world \<Rightarrow> error + world) list \<Rightarrow> world \<Rightarrow> error + world" where
  "run_all [] w = Inr w"
| "run_all (b # bs) w = (case b w of Inl e \<Rightarrow> Inl e | Inr w' \<Rightarrow> run_all bs w')"

definition main :: "pandas \<Rightarrow> world \<Rightarrow> error + world" where
  "main L =
     run_all [build_table1 L, build_table2 L, build_table3 L, build_table4 L,
              build_table5 L, build_table6 L, build_table7 L]"

section \<open>A small instance of the library\<close>

text \<open>
  To run the model on examples, the numeric parser is instantiated with a reader of plain
  decimal numerals: an optional sign, digits, and an optional fraction. Every reader of
  numbers agrees with it on such text.
\<close>

definition is_digit :: "char \<Rightarrow> bool" where
  "is_digit c \<longleftrightarrow> c \<in> set ''0123456789''"

definition digit_val :: "char \<Rightarrow> nat" where
  "digit_val c = (case map_of (zip ''0123456789'' [0, 1, 2, 3, 4, 5, 6, 7, 8, 9]) c of
                    Some d \<Rightarrow> d | None \<Rightarrow> 0)"

fun digits_val :: "nat \<Rightarrow> string \<Rightarrow> nat" where
  "digits_val acc [] = acc"
| "digits_val acc (c # cs) = digits_val (10 * acc + digit_val c) cs"

definition unsigned_decimal :: "string \<Rightarrow> rat option" where
  "unsigned_decimal s =
     (let ip = takeWhile is_digit s; rest = dropWhile is_digit s in
      if ip = [] then None
      else if rest = [] then Some (of_nat (digits_val 0 ip))
      else if hd rest = CHR ''.'' \<and> list_all is_digit (tl rest)
        then Some (of_nat (digits_val 0 ip)
                   + of_nat (digits_val 0 (tl rest)) / 10 ^ length (tl rest))
      else None)"

definition plain_decimal :: "string \<Rightarrow> rat option" where
  "plain_decimal s =
     (case s of
        [] \<Rightarrow> None
      | c # cs \<Rightarrow>
          if c = CHR ''-'' then map_option uminus (unsigned_decimal cs)
          else if c = CHR ''+'' then unsigned_decimal cs
          else unsigned_decimal s)"

text \<open>The other parts of the instance: a stable \<^verbatim>\<open>argsort\<close>, and a reader and two renderers
  of comma-separated text without quoting.\<close>

definition stable_argsort :: "'a::linorder list \<Rightarrow> nat list" where
  "stable_argsort ks = sort_key (\<lambda>i. ks ! i) [0..<length ks]"

function show_nat :: "nat \<Rightarrow> string" where
  "show_nat n =
     (if n < 10 then [''0123456789'' ! n]
      else show_nat (n div 10) @ [''0123456789'' ! (n mod 10)])"
  by pat_completeness auto
termination
  by (relation "measure id") auto

fun frac_digits :: "nat \<Rightarrow> rat \<Rightarrow> string" where
  "frac_digits 0 r = []"
| "frac_digits (Suc fuel) r =
     (if r = 0 then []
      else let d = nat \<lfloor>r * 10\<rfloor> in (''0123456789'' ! d) # frac_digits fuel (r * 10 - of_nat d))"

definition plain_num_str :: "rat \<Rightarrow> string" where
  "plain_num_str q =
     (let a = \<bar>q\<bar>; ip = nat \<lfloor>a\<rfloor>; r = a - of_nat ip in
      (if q < 0 then ''-'' else []) @ show_nat ip
      @ (if r = 0 then [] else ''.'' @ frac_digits 17 r))"

fun split_on :: "char \<Rightarrow> string \<Rightarrow> string list" where
  "split_on d [] = [[]]"
| "split_on d (c # cs) =
     (if c = d then [] # split_on d cs
      else (case split_on d cs of [] \<Rightarrow> [[c]] | f # fs \<Rightarrow> (c # f) # fs))"

fun join :: "string \<Rightarrow> string list \<Rightarrow> string" where
  "join sep [] = []"
| "join sep [x] = x"
| "join sep (x # y # ys) = x @ sep @ join sep (y # ys)"

definition plain_read_csv :: "string \<Rightarrow> error + dataframe" where
  "plain_read_csv text =
     (case filter (\<lambda>l. l \<noteq> []) (split_on (CHR 0x0A) text) of
        [] \<Rightarrow> Inl (ValueError ''No columns to parse from file'')
      | header # body \<Rightarrow>
          let names = split_on CHR '','' header;
              rows = map (split_on CHR '','') body
          in Inr \<lparr>index = [0..<length rows],
                  cols = map (\<lambda>j. (names ! j,
                                   Obj (map (\<lambda>r. if j < length r \<and> r ! j \<noteq> []
                                                  then Some (r ! j) else None) rows)))
                           [0..<length names]\<rparr>)"

definition cell_text :: "scalar \<Rightarrow> string" where
  "cell_text v = (case v of NA \<Rightarrow> [] | S s \<Rightarrow> s | N q \<Rightarrow> plain_num_str q)"

definition render_rows :: "string \<Rightarrow> string \<Rightarrow> dataframe \<Rightarrow> string" where
  "render_rows sep eol df =
     concat (map (\<lambda>line. line @ eol)
       (join sep (map fst (cols df))
        # map (\<lambda>i. join sep (map (\<lambda>(name, c). cell_text (cells c ! i)) (cols df)))
            [0..<nrows df]))"

definition plain_lib :: pandas where
  "plain_lib =
     \<lparr>parse_num = plain_decimal,
      py_float = plain_decimal,
      num_str = plain_num_str,
      argsort_num = stable_argsort,
      argsort_obj = stable_argsort,
      read_csv = plain_read_csv,
      to_csv = (\<lambda>df. Inr (render_rows '','' [CHR 0x0A] df)),
      to_latex = (\<lambda>df. Inr (render_rows '' & '' [CHR 0x5C, CHR 0x5C, CHR 0x0A] df))\<rparr>"

section \<open>Orders used in the statements\<close>

text \<open>
  Ascending and descending order with NaN last, on the cells of one column as they are and
  as \<open>scalar\<close> values. A text cell and a number are not comparable.
\<close>

fun le_na_last :: "'a::linorder option \<Rightarrow> 'a option \<Rightarrow> bool" where
  "le_na_last v None = True"
| "le_na_last None (Some y) = False"
| "le_na_last (Some x) (Some y) = (x \<le> y)"

fun ge_na_last :: "'a::linorder option \<Rightarrow> 'a option \<Rightarrow> bool" where
  "ge_na_last v None = True"
| "ge_na_last None (Some y) = False"
| "ge_na_last (Some x) (Some y) = (y \<le> x)"

fun scalar_le :: "scalar \<Rightarrow> scalar \<Rightarrow> bool" where
  "scalar_le v NA = True"
| "scalar_le NA v = False"
| "scalar_le (S a) (S b) = (a \<le> b)"
| "scalar_le (N a) (N b) = (a \<le> b)"
| "scalar_le (S a) (N b) = False"
| "scalar_le (N a) (S b) = False"

fun scalar_ge :: "scalar \<Rightarrow> scalar \<Rightarrow> bool" where
  "scalar_ge v NA = True"
| "scalar_ge NA v = False"
| "scalar_ge (S a) (S b) = (b \<le> a)"
| "scalar_ge (N a) (N b) = (b \<le> a)"
| "scalar_ge (S a) (N b) = False"
| "scalar_ge (N a) (S b) = False"

section \<open>What a rule may do to a frame\<close>

text \<open>
  \<open>reordered df key coerced ix out\<close>: the frame \<open>out\<close> is \<open>df\<close> with the column \<open>key\<close>
  replaced by \<open>coerced\<close> and the rows put in the order \<open>ix\<close>, a permutation of the row
  positions. Row labels and the cells of every other column travel with their rows.
\<close>

definition reordered :: "dataframe \<Rightarrow> string \<Rightarrow> column \<Rightarrow> nat list \<Rightarrow> dataframe \<Rightarrow> bool" where
  "reordered df key coerced ix out \<longleftrightarrow>
     mset ix = mset [0..<nrows df]
     \<and> out = take_rows (setitem df key coerced) ix
     \<and> nrows out = nrows df
     \<and> index out = map (\<lambda>i. index df ! i) ix
     \<and> getitem out key = Inr (take_col ix coerced)
     \<and> (\<forall>name c. name \<noteq> key \<and> getitem df name = Inr c
            \<longrightarrow> getitem out name = Inr (take_col ix c))"

section \<open>Example frames\<close>

definition ex_table1 :: dataframe where
  "ex_table1 =
     \<lparr>index = [0, 1, 2],
      cols = [(''Model'', Obj [Some ''ResNet'', Some ''SVM'', Some ''ViT'']),
              (''Accuracy (%)'', Obj [Some ''90.5'', Some ''n/a'', Some ''99'']),
              (''Dataset'', Obj [Some ''WM-811K'', Some ''MixedWM38'', Some ''WM-811K''])]\<rparr>"

definition ex_table1_gap :: dataframe where
  "ex_table1_gap =
     \<lparr>index = [0, 1],
      cols = [(''Dataset'', Obj [Some ''A'', Some ''B'']),
              (''Accuracy (%)'', Obj [Some ''n/a'', Some ''90''])]\<rparr>"

definition ex_table2 :: dataframe where
  "ex_table2 =
     \<lparr>index = [0, 1],
      cols = [(''Hardware'', Obj [Some ''GPU'', Some ''GPU'']),
              (''Inference Speed (img/s)'', Obj [Some ''fast'', Some ''120''])]\<rparr>"

definition ex_table3 :: dataframe where
  "ex_table3 =
     \<lparr>index = [0, 1, 2],
      cols = [(''Dataset'', Obj [Some ''A'', Some ''B'', Some ''C'']),
              (''Year'', Obj [Some ''2010'', Some ''n/a'', Some ''1999''])]\<rparr>"

text \<open>The text that \<open>era_regex\<close> matches: a backslash and four letters \<^verbatim>\<open>d\<close>.\<close>

definition era_match :: string where
  "era_match = CHR 0x5C # ''dddd''"

definition ex_table7 :: dataframe where
  "ex_table7 =
     \<lparr>index = [0, 1],
      cols = [(''Era'', Obj [Some ''2010s'', Some ''1990s'']),
              (''Technology'', Obj [Some ''Deep learning'', Some ''Image processing''])]\<rparr>"

definition ex_table7_bad :: dataframe where
  "ex_table7_bad =
     \<lparr>index = [0, 1],
      cols = [(''Era'', Obj [Some ''1990s'', Some (''see '' @ era_match)]),
              (''Technology'', Obj [Some ''Image processing'', Some ''Unknown''])]\<rparr>"

section \<open>Example worlds\<close>

definition newline :: char where
  "newline = CHR 0x0A"

definition ex_table7_bad_csv :: string where
  "ex_table7_bad_csv =
     ''Era,Technology'' @ [newline]
     @ ''1990s,Image processing'' @ [newline]
     @ ''see '' @ era_match @ '',Unknown'' @ [newline]"

definition ex_world7_bad :: world where
  "ex_world7_bad =
     \<lparr>files = [RAW @ ''table7_evolution_technologies.csv'' \<mapsto> ex_table7_bad_csv],
      unwritable = (\<lambda>path. False),
      stdout = []\<rparr>"

definition ex_small :: dataframe where
  "ex_small = \<lparr>index = [0], cols = [(''Challenge'', Obj [Some ''Class imbalance''])]\<rparr>"

text \<open>A world in which the LaTeX file of table \<^verbatim>\<open>t\<close> cannot be opened, and one in which
  its CSV file cannot.\<close>

definition ex_world_no_tex :: world where
  "ex_world_no_tex =
     \<lparr>files = Map.empty, unwritable = (\<lambda>path. path = OUT @ ''t.tex''), stdout = []\<rparr>"

definition ex_world_no_csv :: world where
  "ex_world_no_csv =
     \<lparr>files = Map.empty, unwritable = (\<lambda>path. path = OUT @ ''t.csv''), stdout = []\<rparr>"
definition ex_world_open :: world where
  "ex_world_open = \<lparr>files = Map.empty, unwritable = (\<lambda>path. False), stdout = []\<rparr>"

text \<open>Two instances of the library in which a renderer raises.\<close>

definition ex_lib_no_latex :: pandas where
  "ex_lib_no_latex =
     plain_lib\<lparr>to_latex := (\<lambda>df. Inl (RenderError ''Missing optional dependency Jinja2''))\<rparr>"

definition ex_lib_no_csv :: pandas where
  "ex_lib_no_csv =
     plain_lib\<lparr>to_csv := (\<lambda>df. Inl (RenderError ''codec cannot encode character''))\<rparr>"

definition ex_small_csv :: string where
  "ex_small_csv = ''Challenge'' @ [newline] @ ''Class imbalance'' @ [newline]"

section \<open>The shape shared by the seven builds\<close>

text \<open>
  Every \<open>build_tableN\<close> is the same three steps with its own file name, rule and table name.
  \<open>run_job\<close> is that shape, and \<open>table_builds\<close> lists each build with the name of the file
  it reads and the name of the table it saves.
\<close>

type_synonym job = "string \<times> (pandas \<Rightarrow> dataframe \<Rightarrow> error + dataframe) \<times> string"

definition run_job :: "pandas \<Rightarrow> job \<Rightarrow> world \<Rightarrow> error + world" where
  "run_job L j w =
     (case j of (raw, rule, name) \<Rightarrow>
        (case load_csv L w (RAW @ raw) of
           Inl e \<Rightarrow> Inl e
         | Inr df \<Rightarrow>
             (case rule L df of
                Inl e \<Rightarrow> Inl e
              | Inr df \<Rightarrow> save_table L df name w)))"

definition jobs :: "job list" where
  "jobs =
     [(''table1_model_performance.csv'', table1_transform, ''table1_model_performance''),
      (''table2_hardware_speeds.csv'', table2_transform, ''table2_hardware_speeds''),
      (''table3_datasets.csv'', table3_transform, ''table3_datasets''),
      (''table4_challenges.csv'', table4_transform, ''table4_challenges''),
      (''table5_future_research.csv'', table5_transform, ''table5_future_research''),
      (''table6_implementation_phases.csv'', table6_transform, ''table6_implementation_phases''),
      (''table7_evolution_technologies.csv'', table7_transform,
       ''table7_evolution_technologies'')]"

definition table_builds :: "pandas \<Rightarrow> ((world \<Rightarrow> error + world) \<times> string \<times> string) list" where
  "table_builds L =
     [(build_table1 L, ''table1_model_performance.csv'', ''table1_model_performance''),
      (build_table2 L, ''table2_hardware_speeds.csv'', ''table2_hardware_speeds''),
      (build_table3 L, ''table3_datasets.csv'', ''table3_datasets''),
      (build_table4 L, ''table4_challenges.csv'', ''table4_challenges''),
      (build_table5 L, ''table5_future_research.csv'', ''table5_future_research''),
      (build_table6 L, ''table6_implementation_phases.csv'', ''table6_implementation_phases''),
      (build_table7 L, ''table7_evolution_technologies.csv'',
       ''table7_evolution_technologies'')]"

definition outs :: "job \<Rightarrow> string set" where
  "outs j = (case j of (raw, rule, name) \<Rightarrow> {OUT @ name @ ''.csv'', OUT @ name @ ''.tex''})"

definition ex_table3_csv :: string where
  "ex_table3_csv =
     ''Dataset,Year'' @ [newline] @ ''A,2010'' @ [newline] @ ''B,n/a'' @ [newline]
     @ ''C,1999'' @ [newline]"

definition ex_table3_out_csv :: string where
  "ex_table3_out_csv =
     ''Dataset,Year'' @ [newline] @ ''C,1999'' @ [newline] @ ''A,2010'' @ [newline]
     @ ''B,'' @ [newline]"

definition ex_world3 :: world where
  "ex_world3 =
     \<lparr>files = [RAW @ ''table3_datasets.csv'' \<mapsto> ex_table3_csv],
      unwritable = (\<lambda>path. False),
      stdout = []\<rparr>"

section \<open>Properties of the figure conversions\<close>

lemmas str_defs = strip_def upper_def upper_char_def strip_unit_def endswith_def is_space_def

lemmas dec_defs = plain_decimal_def unsigned_decimal_def is_digit_def digit_val_def

lemma plain_parse_examples:
  "parse_num plain_lib ''4.1'' = Some (41 / 10)"
  "parse_num plain_lib ''1200'' = Some 1200"
  "parse_num plain_lib ''7'' = Some 7"
  "parse_num plain_lib ''12345'' = Some 12345"
  "parse_num plain_lib ''4.1B'' = None"
  "parse_num plain_lib ''N/A'' = None"
  by (simp_all add: plain_lib_def dec_defs)




text \<open>
  \<^bold>\<open>C2\<close>, as stated, fails: the text \<^verbatim>\<open>4.1\<close> ends in none of the three unit letters and is
  converted to the number 4.1, not to a missing value.
\<close>

theorem to_flops_b_unsuffixed_counterexample:
  "\<not> endswith (upper (strip ''4.1'')) ''B''
   \<and> \<not> endswith (upper (strip ''4.1'')) ''G''
   \<and> \<not> endswith (upper (strip ''4.1'')) ''M''
   \<and> to_flops_b plain_lib (S ''4.1'') = Some (41 / 10)"
  by (simp add: to_flops_b_def isna_def py_str_def str_defs plain_parse_examples)

text \<open>
  \<^bold>\<open>C2\<close>, amended. A value that is not missing and whose stripped, upper-cased text ends in
  none of \<^verbatim>\<open>B\<close>, \<^verbatim>\<open>G\<close>, \<^verbatim>\<open>M\<close> is converted with factor 1: the result is what the numeric
  parser makes of that text, a number when it parses and missing only when it does not.
\<close>

theorem to_flops_b_unsuffixed:
  assumes "\<not> isna v"
      and "s = upper (strip (py_str L v))"
      and "\<not> endswith s ''B''" and "\<not> endswith s ''G''" and "\<not> endswith s ''M''"
  shows "to_flops_b L v = parse_num L s"
  using assms by (simp add: to_flops_b_def strip_unit_def option.map_ident)

theorem to_flops_b_unsuffixed_witness:
  "\<not> isna (S ''4.1'') \<and> ''4.1'' = upper (strip (py_str plain_lib (S ''4.1'')))
   \<and> \<not> endswith ''4.1'' ''B'' \<and> \<not> endswith ''4.1'' ''G'' \<and> \<not> endswith ''4.1'' ''M''
   \<and> to_flops_b plain_lib (S ''4.1'') = Some (41 / 10)"
proof -
  have h: "\<not> isna (S ''4.1'')" "''4.1'' = upper (strip (py_str plain_lib (S ''4.1'')))"
    "\<not> endswith ''4.1'' ''B''" "\<not> endswith ''4.1'' ''G''" "\<not> endswith ''4.1'' ''M''"
    by (simp_all add: isna_def py_str_def str_defs)
  from to_flops_b_unsuffixed [OF h] h show ?thesis
    by (simp add: plain_parse_examples)
qed




section \<open>Properties of the sort\<close>

subsection \<open>Labels of a key column\<close>

lemma set_categories: "set (categories vs) = {x. Some x \<in> set vs}"
  by (force simp: categories_def image_iff)

lemma distinct_categories: "distinct (categories vs)"
  by (simp add: categories_def)

lemma code_of_card: "distinct cats \<Longrightarrow> code_of cats x = card {u \<in> set cats. u < x}"
  by (simp add: code_of_def distinct_length_filter Int_def conj_commute)

lemma code_of_mono:
  assumes "distinct cats" "x \<le> y"
  shows "code_of cats x \<le> code_of cats y"
proof -
  have "{u \<in> set cats. u < x} \<subseteq> {u \<in> set cats. u < y}" using assms(2) by auto
  then show ?thesis using assms(1) by (simp add: code_of_card card_mono)
qed

lemma code_of_strict:
  assumes "distinct cats" "x \<in> set cats" "x < y"
  shows "code_of cats x < code_of cats y"
proof -
  have "{u \<in> set cats. u < x} \<subset> {u \<in> set cats. u < y}" using assms(2,3) by auto
  then show ?thesis using assms(1) by (simp add: code_of_card psubset_card_mono)
qed

lemma code_of_less_length:
  assumes "distinct cats" "x \<in> set cats"
  shows "code_of cats x < length cats"
proof -
  have "{u \<in> set cats. u < x} \<subset> set cats" using assms(2) by auto
  then have "card {u \<in> set cats. u < x} < card (set cats)"
    by (simp add: psubset_card_mono)
  then show ?thesis using assms(1) by (simp add: code_of_card distinct_card)
qed

lemma code_of_le_iff:
  assumes "distinct cats" "x \<in> set cats" "y \<in> set cats"
  shows "code_of cats x \<le> code_of cats y \<longleftrightarrow> x \<le> y"
proof
  assume "code_of cats x \<le> code_of cats y"
  show "x \<le> y"
  proof (rule ccontr)
    assume "\<not> x \<le> y"
    then have "y < x" by simp
    from code_of_strict [OF assms(1) assms(3) this] \<open>code_of cats x \<le> code_of cats y\<close>
    show False by simp
  qed
next
  assume "x \<le> y" then show "code_of cats x \<le> code_of cats y"
    by (rule code_of_mono [OF assms(1)])
qed

lemma labels_nth:
  "i < length vs \<Longrightarrow> labels asc vs ! i =
     (case vs ! i of None \<Rightarrow> length (categories vs)
      | Some x \<Rightarrow> if asc then code_of (categories vs) x
                  else length (categories vs) - code_of (categories vs) x - 1)"
  by (simp add: labels_def Let_def)

lemma length_labels [simp]: "length (labels asc vs) = length vs"
  by (simp add: labels_def Let_def)

lemma labels_asc_le:
  assumes "i < length vs" "j < length vs"
  shows "labels True vs ! i \<le> labels True vs ! j \<longleftrightarrow> le_na_last (vs ! i) (vs ! j)"
proof (cases "vs ! i")
  case None
  show ?thesis
  proof (cases "vs ! j")
    case None with \<open>vs ! i = None\<close> assms show ?thesis by (simp add: labels_nth)
  next
    case (Some y)
    then have "y \<in> set (categories vs)" using assms(2) by (metis mem_Collect_eq nth_mem set_categories)
    from code_of_less_length [OF distinct_categories this] Some None assms
    show ?thesis by (simp add: labels_nth)
  qed
next
  case (Some x)
  then have x: "x \<in> set (categories vs)" using assms(1) by (metis mem_Collect_eq nth_mem set_categories)
  show ?thesis
  proof (cases "vs ! j")
    case None
    from code_of_less_length [OF distinct_categories x] Some None assms
    show ?thesis by (simp add: labels_nth)
  next
    case (Some y)
    then have y: "y \<in> set (categories vs)" using assms(2) by (metis mem_Collect_eq nth_mem set_categories)
    from code_of_le_iff [OF distinct_categories x y] Some \<open>vs ! i = Some x\<close> assms
    show ?thesis by (simp add: labels_nth)
  qed
qed

lemma labels_desc_le:
  assumes "i < length vs" "j < length vs"
  shows "labels False vs ! i \<le> labels False vs ! j \<longleftrightarrow> ge_na_last (vs ! i) (vs ! j)"
proof (cases "vs ! i")
  case None
  show ?thesis
  proof (cases "vs ! j")
    case None with \<open>vs ! i = None\<close> assms show ?thesis by (simp add: labels_nth)
  next
    case (Some y)
    then have "y \<in> set (categories vs)" using assms(2) by (metis mem_Collect_eq nth_mem set_categories)
    from code_of_less_length [OF distinct_categories this] Some None assms
    show ?thesis by (simp add: labels_nth)
  qed
next
  case (Some x)
  then have x: "x \<in> set (categories vs)" using assms(1) by (metis mem_Collect_eq nth_mem set_categories)
  show ?thesis
  proof (cases "vs ! j")
    case None
    from code_of_less_length [OF distinct_categories x] Some None assms
    show ?thesis by (simp add: labels_nth)
  next
    case (Some y)
    then have y: "y \<in> set (categories vs)" using assms(2) by (metis mem_Collect_eq nth_mem set_categories)
    from code_of_le_iff [OF distinct_categories y x]
      code_of_less_length [OF distinct_categories x]
      code_of_less_length [OF distinct_categories y]
      Some \<open>vs ! i = Some x\<close> assms
    show ?thesis by (auto simp add: labels_nth)
  qed
qed

lemma length_col_labels [simp]: "length (col_labels asc c) = col_len c"
  by (cases c) simp_all

lemma scalar_le_Obj:
  "i < length vs \<Longrightarrow> j < length vs \<Longrightarrow>
   scalar_le (cells (Obj vs) ! i) (cells (Obj vs) ! j) = le_na_last (vs ! i) (vs ! j)"
  by (cases "vs ! i"; cases "vs ! j") simp_all

lemma scalar_le_Nums:
  "i < length vs \<Longrightarrow> j < length vs \<Longrightarrow>
   scalar_le (cells (Nums vs) ! i) (cells (Nums vs) ! j) = le_na_last (vs ! i) (vs ! j)"
  by (cases "vs ! i"; cases "vs ! j") simp_all

lemma col_labels_asc_le:
  assumes "i < col_len c" "j < col_len c"
  shows "col_labels True c ! i \<le> col_labels True c ! j
         \<longleftrightarrow> scalar_le (cells c ! i) (cells c ! j)"
proof (cases c)
  case (Obj vs)
  then have "i < length vs" "j < length vs" using assms by simp_all
  then show ?thesis unfolding Obj col_labels.simps
    by (simp only: labels_asc_le scalar_le_Obj)
next
  case (Nums vs)
  then have "i < length vs" "j < length vs" using assms by simp_all
  then show ?thesis unfolding Nums col_labels.simps
    by (simp only: labels_asc_le scalar_le_Nums)
qed

lemma scalar_ge_Obj:
  "i < length vs \<Longrightarrow> j < length vs \<Longrightarrow>
   scalar_ge (cells (Obj vs) ! i) (cells (Obj vs) ! j) = ge_na_last (vs ! i) (vs ! j)"
  by (cases "vs ! i"; cases "vs ! j") simp_all

lemma scalar_ge_Nums:
  "i < length vs \<Longrightarrow> j < length vs \<Longrightarrow>
   scalar_ge (cells (Nums vs) ! i) (cells (Nums vs) ! j) = ge_na_last (vs ! i) (vs ! j)"
  by (cases "vs ! i"; cases "vs ! j") simp_all

lemma col_labels_desc_le:
  assumes "i < col_len c" "j < col_len c"
  shows "col_labels False c ! i \<le> col_labels False c ! j
         \<longleftrightarrow> scalar_ge (cells c ! i) (cells c ! j)"
proof (cases c)
  case (Obj vs)
  then have "i < length vs" "j < length vs" using assms by simp_all
  then show ?thesis unfolding Obj col_labels.simps
    by (simp only: labels_desc_le scalar_ge_Obj)
next
  case (Nums vs)
  then have "i < length vs" "j < length vs" using assms by simp_all
  then show ?thesis unfolding Nums col_labels.simps
    by (simp only: labels_desc_le scalar_ge_Nums)
qed

lemma labels_eq:
  assumes "i < length vs" "j < length vs" "vs ! i = vs ! j"
  shows "labels asc vs ! i = labels asc vs ! j"
  using assms by (simp add: labels_nth)

lemma cells_Obj_inj:
  "i < length vs \<Longrightarrow> j < length vs \<Longrightarrow> cells (Obj vs) ! i = cells (Obj vs) ! j
   \<Longrightarrow> vs ! i = vs ! j"
  by (auto split: option.splits)

lemma cells_Nums_inj:
  "i < length vs \<Longrightarrow> j < length vs \<Longrightarrow> cells (Nums vs) ! i = cells (Nums vs) ! j
   \<Longrightarrow> vs ! i = vs ! j"
  by (auto split: option.splits)

lemma col_labels_eq:
  assumes "i < col_len c" "j < col_len c" "cells c ! i = cells c ! j"
  shows "col_labels asc c ! i = col_labels asc c ! j"
proof (cases c)
  case (Obj vs)
  then have l: "i < length vs" "j < length vs" using assms by simp_all
  from cells_Obj_inj [OF l] assms(3) have "vs ! i = vs ! j" unfolding Obj by blast
  from labels_eq [OF l this] show ?thesis unfolding Obj col_labels.simps .
next
  case (Nums vs)
  then have l: "i < length vs" "j < length vs" using assms by simp_all
  from cells_Nums_inj [OF l] assms(3) have "vs ! i = vs ! j" unfolding Nums by blast
  from labels_eq [OF l this] show ?thesis unfolding Nums col_labels.simps .
qed

subsection \<open>Frames\<close>


lemma getitem_setitem:
  "getitem (setitem df name c) name' = (if name' = name then Inr c else getitem df name')"
  by (simp add: getitem_def setitem_def update_conv')


lemma getitem_take_rows:
  "getitem (take_rows df ix) name =
     (case getitem df name of Inl e \<Rightarrow> Inl e | Inr c \<Rightarrow> Inr (take_col ix c))"
  by (simp add: getitem_def take_rows_def map_of_map split: option.splits)


lemma nrows_take_rows [simp]: "nrows (take_rows df ix) = length ix"
  by (simp add: nrows_def take_rows_def)


lemma nrows_setitem [simp]: "nrows (setitem df name c) = nrows df"
  by (simp add: nrows_def setitem_def)


lemma col_len_to_numeric [simp]: "col_len (to_numeric L c) = col_len c"
  by (cases c) simp_all


lemma getitem_col_len:
  assumes "wf_frame df" "getitem df name = Inr c"
  shows "col_len c = nrows df"
proof -
  from assms(2) have "map_of (cols df) name = Some c"
    by (simp add: getitem_def split: option.splits)
  then have "(name, c) \<in> set (cols df)" by (rule map_of_SomeD)
  then have "c \<in> snd ` set (cols df)" by force
  with assms(1) show ?thesis unfolding wf_frame_def by blast
qed


lemma snd_set_update: "snd ` set (AList.update k v al) \<subseteq> insert v (snd ` set al)"
  by (induction al) auto


lemma wf_setitem:
  assumes "wf_frame df" "col_len c = nrows df"
  shows "wf_frame (setitem df name c)"
proof -
  have "distinct (map fst (cols (setitem df name c)))"
    using assms(1) by (simp add: wf_frame_def setitem_def distinct_update)
  moreover have "col_len b = nrows (setitem df name c)"
    if "b \<in> snd ` set (cols (setitem df name c))" for b
  proof -
    from that snd_set_update [of name c "cols df"]
    have "b = c \<or> b \<in> snd ` set (cols df)" unfolding setitem_def by auto
    with assms show ?thesis unfolding wf_frame_def by auto
  qed
  ultimately show ?thesis unfolding wf_frame_def by blast
qed


lemma cells_take_col:
  assumes "ix ! p < col_len c" "p < length ix"
  shows "cells (take_col ix c) ! p = cells c ! (ix ! p)"
  using assms by (cases c) simp_all


lemma col_len_take_col [simp]: "col_len (take_col ix c) = length ix"
  by (cases c) simp_all


lemma take_col_upt: "col_len c = n \<Longrightarrow> take_col [0..<n] c = c"
  by (cases c) (auto simp: map_nth)


lemma take_rows_upt:
  assumes "wf_frame df"
  shows "take_rows df [0..<nrows df] = df"
proof -
  have "map (\<lambda>(name, c). (name, take_col [0..<nrows df] c)) (cols df) = cols df"
    using assms by (intro map_idI) (auto simp: wf_frame_def take_col_upt)
  moreover have "map (\<lambda>i. index df ! i) [0..<nrows df] = index df"
    by (simp add: nrows_def map_nth)
  ultimately show ?thesis by (simp add: take_rows_def)
qed


subsection \<open>lexsort\<close>


lemma mset_lexsort2: "mset (lexsort2 l1 l2) = mset [0..<length l1]"
  by (simp add: lexsort2_def)


lemma perm_upt_nth:
  assumes "mset ix = mset [0..<n]"
  shows "length ix = n" and "p < length ix \<Longrightarrow> ix ! p < n"
proof -
  from assms show "length ix = n" by (metis length_upt mset_eq_length minus_nat.diff_0)
  assume "p < length ix"
  then have "ix ! p \<in> set ix" by simp
  also have "set ix = set [0..<n]" using assms by (rule mset_eq_setD)
  finally show "ix ! p < n" by simp
qed


lemma lexsort2_order:
  assumes "p < q" "q < length l1"
  shows "l1 ! (lexsort2 l1 l2 ! p) \<le> l1 ! (lexsort2 l1 l2 ! q)"
    and "l1 ! (lexsort2 l1 l2 ! p) = l1 ! (lexsort2 l1 l2 ! q)
         \<Longrightarrow> l2 ! (lexsort2 l1 l2 ! p) \<le> l2 ! (lexsort2 l1 l2 ! q)"
proof -
  let ?ix = "lexsort2 l1 l2"
  let ?f = "\<lambda>i. (l1 ! i, l2 ! i)"
  have len: "length ?ix = length l1" by (simp add: lexsort2_def)
  have "sorted (map ?f ?ix)" by (simp add: lexsort2_def)
  then have "map ?f ?ix ! p \<le> map ?f ?ix ! q"
    using assms len by (simp add: sorted_iff_nth_mono)
  then have le: "?f (?ix ! p) \<le> ?f (?ix ! q)" using assms len by simp
  then show "l1 ! (?ix ! p) \<le> l1 ! (?ix ! q)" by (auto simp: less_eq_prod_def)
  assume "l1 ! (?ix ! p) = l1 ! (?ix ! q)"
  with le show "l2 ! (?ix ! p) \<le> l2 ! (?ix ! q)" by (auto simp: less_eq_prod_def)
qed

subsection \<open>The two-key sort\<close>

lemma sort_two_keys:
  assumes wf: "wf_frame df" and k1: "getitem df by1 = Inr c1" and k2: "getitem df by2 = Inr c2"
  shows "\<exists>ix. mset ix = mset [0..<nrows df]
           \<and> sort_values2 df by1 by2 True False = Inr (take_rows df ix)
           \<and> (\<forall>p q. p < q \<and> q < nrows df \<longrightarrow>
                  scalar_le (cells (take_col ix c1) ! p) (cells (take_col ix c1) ! q)
                  \<and> (cells (take_col ix c1) ! p = cells (take_col ix c1) ! q \<longrightarrow>
                       scalar_ge (cells (take_col ix c2) ! p) (cells (take_col ix c2) ! q)))"
proof -
  let ?l1 = "col_labels True c1" and ?l2 = "col_labels False c2"
  let ?ix = "lexsort2 ?l1 ?l2"
  have n1: "col_len c1 = nrows df" and n2: "col_len c2 = nrows df"
    using wf k1 k2 by (auto dest: getitem_col_len)
  have perm: "mset ?ix = mset [0..<nrows df]"
    using n1 by (simp add: mset_lexsort2)
  have len: "length ?ix = nrows df" using perm by (rule perm_upt_nth(1))
  have rng: "?ix ! p < nrows df" if "p < nrows df" for p
    using perm_upt_nth(2) [OF perm] that len by simp
  have run: "sort_values2 df by1 by2 True False = Inr (take_rows df ?ix)"
    using k1 k2 by (simp add: sort_values2_def)
  have ord: "scalar_le (cells (take_col ?ix c1) ! p) (cells (take_col ?ix c1) ! q)
             \<and> (cells (take_col ?ix c1) ! p = cells (take_col ?ix c1) ! q \<longrightarrow>
                  scalar_ge (cells (take_col ?ix c2) ! p) (cells (take_col ?ix c2) ! q))"
    if pq: "p < q" "q < nrows df" for p q
  proof -
    from pq have p: "p < nrows df" by simp
    note ip = rng [OF p] and iq = rng [OF pq(2)]
    have c1p: "cells (take_col ?ix c1) ! p = cells c1 ! (?ix ! p)"
      by (rule cells_take_col) (simp_all only: n1 len ip p)
    have c1q: "cells (take_col ?ix c1) ! q = cells c1 ! (?ix ! q)"
      by (rule cells_take_col) (simp_all only: n1 len iq pq)
    have c2p: "cells (take_col ?ix c2) ! p = cells c2 ! (?ix ! p)"
      by (rule cells_take_col) (simp_all only: n2 len ip p)
    have c2q: "cells (take_col ?ix c2) ! q = cells c2 ! (?ix ! q)"
      by (rule cells_take_col) (simp_all only: n2 len iq pq)
    have q1: "q < length ?l1" using pq(2) n1 by simp
    have ip1: "?ix ! p < col_len c1" and iq1: "?ix ! q < col_len c1"
      and ip2: "?ix ! p < col_len c2" and iq2: "?ix ! q < col_len c2"
      by (simp_all only: n1 n2 ip iq)
    have a: "scalar_le (cells c1 ! (?ix ! p)) (cells c1 ! (?ix ! q))"
      using lexsort2_order(1) [OF pq(1) q1, of ?l2]
      by (simp only: col_labels_asc_le [OF ip1 iq1])
    have b: "scalar_ge (cells c2 ! (?ix ! p)) (cells c2 ! (?ix ! q))"
      if "cells c1 ! (?ix ! p) = cells c1 ! (?ix ! q)"
    proof -
      from col_labels_eq [OF ip1 iq1 that]
      have "?l1 ! (?ix ! p) = ?l1 ! (?ix ! q)" .
      from lexsort2_order(2) [OF pq(1) q1 this]
      show ?thesis by (simp only: col_labels_desc_le [OF ip2 iq2])
    qed
    from a b show ?thesis unfolding c1p c1q c2p c2q by blast
  qed
  from perm run ord show ?thesis by blast
qed

lemma coerce_then_sort_two_keys:
  assumes wf: "wf_frame df" and kc: "getitem df key = Inr c" and kg: "getitem df grp = Inr g"
    and ne: "grp \<noteq> key"
  shows "\<exists>ix. mset ix = mset [0..<nrows df]
           \<and> sort_values2 (setitem df key (to_numeric L c)) grp key True False
               = Inr (take_rows (setitem df key (to_numeric L c)) ix)
           \<and> (\<forall>p q. p < q \<and> q < nrows df \<longrightarrow>
                  scalar_le (cells (take_col ix g) ! p) (cells (take_col ix g) ! q)
                  \<and> (cells (take_col ix g) ! p = cells (take_col ix g) ! q \<longrightarrow>
                       scalar_ge (cells (take_col ix (to_numeric L c)) ! p)
                                 (cells (take_col ix (to_numeric L c)) ! q)))"
proof -
  let ?df = "setitem df key (to_numeric L c)"
  have "col_len (to_numeric L c) = nrows df"
    using wf kc by (simp add: getitem_col_len)
  then have wf': "wf_frame ?df" using wf by (rule wf_setitem [rotated])
  have g: "getitem ?df grp = Inr g" using kg ne by (simp add: getitem_setitem)
  have k: "getitem ?df key = Inr (to_numeric L c)" by (simp add: getitem_setitem)
  from sort_two_keys [OF wf' g k] show ?thesis by simp
qed

subsection \<open>The one-key sort\<close>

lemma argsort_okD:
  assumes "argsort_ok asort"
  shows "mset (asort ks) = mset [0..<length ks]" and "sorted (map (\<lambda>i. ks ! i) (asort ks))"
  using assms unfolding argsort_ok_def by blast+

lemma nargsort_with_eq:
  "nargsort_with asort vs =
     map (\<lambda>j. filter (\<lambda>i. vs ! i \<noteq> None) [0..<length vs] ! j)
       (asort (map (\<lambda>i. the (vs ! i)) (filter (\<lambda>i. vs ! i \<noteq> None) [0..<length vs])))
     @ filter (\<lambda>i. vs ! i = None) [0..<length vs]"
  by (simp add: nargsort_with_def Let_def)

lemma mset_nargsort_with:
  assumes ok: "argsort_ok asort"
  shows "mset (nargsort_with asort vs) = mset [0..<length vs]"
proof -
  let ?nn = "filter (\<lambda>i. vs ! i \<noteq> None) [0..<length vs]"
  let ?na = "filter (\<lambda>i. vs ! i = None) [0..<length vs]"
  let ?ks = "map (\<lambda>i. the (vs ! i)) ?nn"
  have "mset (asort ?ks) = mset [0..<length ?nn]"
    using argsort_okD(1) [OF ok, of ?ks] by simp
  then have "image_mset (\<lambda>j. ?nn ! j) (mset (asort ?ks))
             = image_mset (\<lambda>j. ?nn ! j) (mset [0..<length ?nn])"
    by (rule arg_cong)
  then have "mset (map (\<lambda>j. ?nn ! j) (asort ?ks)) = mset (map (\<lambda>j. ?nn ! j) [0..<length ?nn])"
    by (simp only: mset_map)
  also have "\<dots> = mset ?nn" by (simp only: map_nth)
  finally have a: "mset (map (\<lambda>j. ?nn ! j) (asort ?ks)) = mset ?nn" .
  have "?na = filter (\<lambda>i. \<not> vs ! i \<noteq> None) [0..<length vs]" by simp
  then have "mset ?nn + mset ?na = mset [0..<length vs]"
    by (simp only: mset_filter multiset_partition [symmetric])
  then show ?thesis unfolding nargsort_with_eq mset_append a .
qed


lemma nth_filter_pred:
  assumes "k < length (filter P xs)"
  shows "P (filter P xs ! k)"
  using nth_mem [OF assms] by simp

lemma nargsort_with_order:
  assumes ok: "argsort_ok asort" and pq: "p < q" "q < length vs"
  shows "le_na_last (vs ! (nargsort_with asort vs ! p)) (vs ! (nargsort_with asort vs ! q))"
proof -
  let ?nn = "filter (\<lambda>i. vs ! i \<noteq> None) [0..<length vs]"
  let ?na = "filter (\<lambda>i. vs ! i = None) [0..<length vs]"
  let ?ks = "map (\<lambda>i. the (vs ! i)) ?nn"
  let ?a = "asort ?ks"
  let ?ix = "map (\<lambda>j. ?nn ! j) ?a @ ?na"
  have ix: "nargsort_with asort vs = ?ix" by (rule nargsort_with_eq)
  have pa: "mset ?a = mset [0..<length ?nn]"
    using argsort_okD(1) [OF ok, of ?ks] by simp
  have la: "length ?a = length ?nn" using pa by (rule perm_upt_nth(1))
  have lix: "length ?ix = length vs"
    using mset_nargsort_with [OF ok, of vs] unfolding ix by (rule perm_upt_nth(1))
  show ?thesis
  proof (cases "q < length ?a")
    case False
    then have "?ix ! q = ?na ! (q - length ?a)" by (simp add: nth_append)
    moreover have "q - length ?a < length ?na" using False pq(2) lix by simp
    ultimately have "vs ! (?ix ! q) = None" using nth_filter_pred [of "q - length ?a"] by simp
    then show ?thesis unfolding ix by simp
  next
    case True
    with pq(1) have p: "p < length ?a" by simp
    have ap: "?a ! p < length ?nn" and aq: "?a ! q < length ?nn"
      using perm_upt_nth(2) [OF pa] p True by blast+
    have ixp: "?ix ! p = ?nn ! (?a ! p)" and ixq: "?ix ! q = ?nn ! (?a ! q)"
      using p True by (simp_all add: nth_append)
    obtain x where x: "vs ! (?nn ! (?a ! p)) = Some x"
      using nth_filter_pred [OF ap] by blast
    obtain y where y: "vs ! (?nn ! (?a ! q)) = Some y"
      using nth_filter_pred [OF aq] by blast
    have "sorted (map (\<lambda>i. ?ks ! i) ?a)" by (rule argsort_okD(2) [OF ok])
    then have "map (\<lambda>i. ?ks ! i) ?a ! p \<le> map (\<lambda>i. ?ks ! i) ?a ! q"
      using pq(1) True by (simp add: sorted_iff_nth_mono)
    then have "?ks ! (?a ! p) \<le> ?ks ! (?a ! q)" using p True by simp
    then have "x \<le> y" using ap aq x y by simp
    then show ?thesis unfolding ix ixp ixq x y by simp
  qed
qed

lemma to_numeric_Nums: "\<exists>vs. to_numeric L c = Nums vs \<and> length vs = col_len c"
  by (cases c) simp_all

lemma to_numeric_cells:
  assumes "i < col_len c"
  shows "cells (to_numeric L c) ! i =
           (case cells c ! i of
              NA \<Rightarrow> NA
            | S s \<Rightarrow> (case parse_num L s of None \<Rightarrow> NA | Some x \<Rightarrow> N x)
            | N x \<Rightarrow> N x)"
proof (cases c)
  case (Obj vs)
  with assms show ?thesis by (cases "vs ! i") (simp_all split: option.splits)
next
  case (Nums vs)
  with assms show ?thesis by (cases "vs ! i") simp_all
qed

lemma scalar_le_NA: "scalar_le NA b \<Longrightarrow> b = NA"
  by (cases b) simp_all

lemma scalar_ge_NA: "scalar_ge NA b \<Longrightarrow> b = NA"
  by (cases b) simp_all

lemma sort_numeric_key:
  assumes wf: "wf_frame df" and k: "getitem df key = Inr (Nums vs)"
    and ok: "argsort_ok (argsort_num L)"
  shows "\<exists>ix. mset ix = mset [0..<nrows df]
           \<and> sort_values L df key = Inr (take_rows df ix)
           \<and> (\<forall>p q. p < q \<and> q < nrows df \<longrightarrow>
                  scalar_le (cells (take_col ix (Nums vs)) ! p)
                            (cells (take_col ix (Nums vs)) ! q))"
proof -
  let ?ix = "nargsort_with (argsort_num L) vs"
  have n: "length vs = nrows df" using getitem_col_len [OF wf k] by simp
  have perm: "mset ?ix = mset [0..<nrows df]"
    using mset_nargsort_with [OF ok, of vs] unfolding n .
  have len: "length ?ix = nrows df" using perm by (rule perm_upt_nth(1))
  have run: "sort_values L df key = Inr (take_rows df ?ix)"
    using k by (simp add: sort_values_def)
  have ord: "scalar_le (cells (take_col ?ix (Nums vs)) ! p) (cells (take_col ?ix (Nums vs)) ! q)"
    if pq: "p < q" "q < nrows df" for p q
  proof -
    from pq have p: "p < nrows df" by simp
    have ip: "?ix ! p < length vs" and iq: "?ix ! q < length vs"
      using perm_upt_nth(2) [OF perm] p pq(2) len n by simp_all
    have q': "q < length vs" using pq(2) n by simp
    have cp: "cells (take_col ?ix (Nums vs)) ! p = cells (Nums vs) ! (?ix ! p)"
      by (rule cells_take_col) (simp_all only: col_len.simps ip len p)
    have cq: "cells (take_col ?ix (Nums vs)) ! q = cells (Nums vs) ! (?ix ! q)"
      by (rule cells_take_col) (simp_all only: col_len.simps iq len pq)
    from nargsort_with_order [OF ok pq(1) q']
    show ?thesis unfolding cp cq by (simp only: scalar_le_Nums [OF ip iq])
  qed
  from perm run ord show ?thesis by blast
qed

lemma coerce_then_sort:
  assumes wf: "wf_frame df" and kc: "getitem df key = Inr c"
    and ok: "argsort_ok (argsort_num L)"
  shows "\<exists>ix. mset ix = mset [0..<nrows df]
           \<and> sort_values L (setitem df key (to_numeric L c)) key
               = Inr (take_rows (setitem df key (to_numeric L c)) ix)
           \<and> (\<forall>p q. p < q \<and> q < nrows df \<longrightarrow>
                  scalar_le (cells (take_col ix (to_numeric L c)) ! p)
                            (cells (take_col ix (to_numeric L c)) ! q))"
proof -
  let ?df = "setitem df key (to_numeric L c)"
  obtain vs where vs: "to_numeric L c = Nums vs" using to_numeric_Nums by blast
  have "col_len (to_numeric L c) = nrows df"
    using wf kc by (simp add: getitem_col_len)
  then have wf': "wf_frame ?df" using wf by (rule wf_setitem [rotated])
  have k: "getitem ?df key = Inr (Nums vs)" by (simp add: getitem_setitem vs)
  from sort_numeric_key [OF wf' k ok] show ?thesis unfolding vs by simp
qed

lemma take_rows_columns:
  "getitem df name = Inr c \<Longrightarrow> getitem (take_rows df ix) name = Inr (take_col ix c)"
  by (simp add: getitem_take_rows)

lemma index_take_rows: "index (take_rows df ix) = map (\<lambda>i. index df ! i) ix"
  by (simp add: take_rows_def)

lemma reordered_take_rows:
  assumes "mset ix = mset [0..<nrows df]"
  shows "reordered df key k ix (take_rows (setitem df key k) ix)"
proof -
  have "length ix = nrows df" using assms by (rule perm_upt_nth(1))
  then have "nrows (take_rows (setitem df key k) ix) = nrows df" by simp
  moreover have "index (take_rows (setitem df key k) ix) = map (\<lambda>i. index df ! i) ix"
    by (simp add: take_rows_def setitem_def)
  moreover have "getitem (take_rows (setitem df key k) ix) key = Inr (take_col ix k)"
    by (simp add: getitem_take_rows getitem_setitem)
  moreover have "getitem (take_rows (setitem df key k) ix) name = Inr (take_col ix c)"
    if "name \<noteq> key" "getitem df name = Inr c" for name c
    using that by (simp add: getitem_take_rows getitem_setitem)
  ultimately show ?thesis using assms unfolding reordered_def by blast
qed

lemma stable_argsort_ok: "argsort_ok stable_argsort"
  unfolding argsort_ok_def stable_argsort_def by simp

lemma plain_argsort_ok: "argsort_ok (argsort_num plain_lib)"
  by (simp add: plain_lib_def stable_argsort_ok)

text \<open>
  \<^bold>\<open>C5.\<close> For every well-formed frame with the two columns, the rule of table 1 returns a
  frame (it raises nothing): the input with the accuracy column coerced to numbers, a text
  cell that does not parse becoming missing, and the rows reordered. In the output the
  dataset cells ascend (missing last), and rows with the same dataset cell have their
  accuracies descending (missing last).
\<close>

theorem table1_sorted:
  assumes "wf_frame df"
      and "getitem df ''Accuracy (%)'' = Inr acc"
      and "getitem df ''Dataset'' = Inr ds"
  shows "\<exists>out ix.
           table1_transform L df = Inr out
         \<and> reordered df ''Accuracy (%)'' (to_numeric L acc) ix out
         \<and> (\<forall>i < nrows df.
               cells (to_numeric L acc) ! i =
                 (case cells acc ! i of
                    NA \<Rightarrow> NA
                  | S s \<Rightarrow> (case parse_num L s of None \<Rightarrow> NA | Some x \<Rightarrow> N x)
                  | N x \<Rightarrow> N x))
         \<and> (\<forall>p q. p < q \<and> q < nrows df \<longrightarrow>
               scalar_le (cells (take_col ix ds) ! p) (cells (take_col ix ds) ! q)
               \<and> (cells (take_col ix ds) ! p = cells (take_col ix ds) ! q \<longrightarrow>
                    scalar_ge (cells (take_col ix (to_numeric L acc)) ! p)
                              (cells (take_col ix (to_numeric L acc)) ! q)))"
proof -
  have ne: "''Dataset'' \<noteq> ''Accuracy (%)''" by simp
  from coerce_then_sort_two_keys [OF assms(1) assms(2) assms(3) ne, of L]
  obtain ix where perm: "mset ix = mset [0..<nrows df]"
    and run: "sort_values2 (setitem df ''Accuracy (%)'' (to_numeric L acc))
                ''Dataset'' ''Accuracy (%)'' True False
              = Inr (take_rows (setitem df ''Accuracy (%)'' (to_numeric L acc)) ix)"
    and ord: "\<forall>p q. p < q \<and> q < nrows df \<longrightarrow>
               scalar_le (cells (take_col ix ds) ! p) (cells (take_col ix ds) ! q)
               \<and> (cells (take_col ix ds) ! p = cells (take_col ix ds) ! q \<longrightarrow>
                    scalar_ge (cells (take_col ix (to_numeric L acc)) ! p)
                              (cells (take_col ix (to_numeric L acc)) ! q))"
    by blast
  have res: "table1_transform L df
             = Inr (take_rows (setitem df ''Accuracy (%)'' (to_numeric L acc)) ix)"
    unfolding table1_transform_def using assms(2) run by simp
  have n: "col_len acc = nrows df" by (rule getitem_col_len [OF assms(1) assms(2)])
  have co: "\<forall>i < nrows df.
               cells (to_numeric L acc) ! i =
                 (case cells acc ! i of
                    NA \<Rightarrow> NA
                  | S s \<Rightarrow> (case parse_num L s of None \<Rightarrow> NA | Some x \<Rightarrow> N x)
                  | N x \<Rightarrow> N x)"
    using to_numeric_cells [of _ acc L] unfolding n by blast
  from res reordered_take_rows [OF perm] co ord show ?thesis by blast
qed

lemma ex_table1_facts:
  "wf_frame ex_table1"
  "getitem ex_table1 ''Accuracy (%)'' = Inr (Obj [Some ''90.5'', Some ''n/a'', Some ''99''])"
  "getitem ex_table1 ''Dataset''
     = Inr (Obj [Some ''WM-811K'', Some ''MixedWM38'', Some ''WM-811K''])"
  by (simp_all add: ex_table1_def wf_frame_def getitem_def nrows_def)

lemma ex_table1_run:
  "table1_transform plain_lib ex_table1 =
     Inr \<lparr>index = [1, 2, 0],
          cols = [(''Model'', Obj [Some ''SVM'', Some ''ViT'', Some ''ResNet'']),
                  (''Accuracy (%)'', Nums [None, Some 99, Some (181 / 2)]),
                  (''Dataset'', Obj [Some ''MixedWM38'', Some ''WM-811K'', Some ''WM-811K''])]\<rparr>"
  by code_simp

theorem table1_sorted_witness:
  "wf_frame ex_table1
   \<and> getitem ex_table1 ''Accuracy (%)'' = Inr (Obj [Some ''90.5'', Some ''n/a'', Some ''99''])
   \<and> getitem ex_table1 ''Dataset''
       = Inr (Obj [Some ''WM-811K'', Some ''MixedWM38'', Some ''WM-811K''])
   \<and> (\<exists>ix. reordered ex_table1 ''Accuracy (%)''
              (to_numeric plain_lib (Obj [Some ''90.5'', Some ''n/a'', Some ''99''])) ix
              \<lparr>index = [1, 2, 0],
               cols = [(''Model'', Obj [Some ''SVM'', Some ''ViT'', Some ''ResNet'']),
                       (''Accuracy (%)'', Nums [None, Some 99, Some (181 / 2)]),
                       (''Dataset'',
                        Obj [Some ''MixedWM38'', Some ''WM-811K'', Some ''WM-811K''])]\<rparr>)"
  using table1_sorted [OF ex_table1_facts, of plain_lib] ex_table1_facts
  unfolding ex_table1_run by blast

text \<open>
  \<^bold>\<open>C10\<close>, as stated, fails for table 1: in the frame below the row whose accuracy does not
  parse belongs to dataset \<^verbatim>\<open>A\<close> and is placed first, before the row of dataset \<^verbatim>\<open>B\<close> whose
  accuracy parsed. The accuracy is the second key; a missing accuracy is last only among the
  rows of its own dataset.
\<close>

theorem table1_missing_first_counterexample:
  "table1_transform plain_lib ex_table1_gap =
     Inr \<lparr>index = [0, 1],
          cols = [(''Dataset'', Obj [Some ''A'', Some ''B'']),
                  (''Accuracy (%)'', Nums [None, Some 90])]\<rparr>"
  by code_simp

lemma na_last_one_key:
  assumes ord: "\<forall>p q. p < q \<and> q < n \<longrightarrow> scalar_le (cs ! p) (cs ! q)"
    and "p < n" "q < n" "cs ! p = NA" "cs ! q \<noteq> NA"
  shows "q < p"
proof (rule ccontr)
  assume "\<not> q < p"
  moreover have "p \<noteq> q" using assms(4,5) by auto
  ultimately have "p < q" by simp
  with ord assms(3) have "scalar_le (cs ! p) (cs ! q)" by blast
  with assms(4) have "cs ! q = NA" by (simp add: scalar_le_NA)
  with assms(5) show False by simp
qed

lemma na_last_two_keys:
  assumes ord: "\<forall>p q. p < q \<and> q < n \<longrightarrow>
                  scalar_le (gs ! p) (gs ! q)
                  \<and> (gs ! p = gs ! q \<longrightarrow> scalar_ge (cs ! p) (cs ! q))"
    and "p < n" "q < n" "gs ! p = gs ! q" "cs ! p = NA" "cs ! q \<noteq> NA"
  shows "q < p"
proof (rule ccontr)
  assume "\<not> q < p"
  moreover have "p \<noteq> q" using assms(5,6) by auto
  ultimately have "p < q" by simp
  with ord assms(3,4) have "scalar_ge (cs ! p) (cs ! q)" by blast
  with assms(5) have "cs ! q = NA" by (simp add: scalar_ge_NA)
  with assms(6) show False by simp
qed

lemma two_key_rule_missing_last:
  assumes wf: "wf_frame df" and kc: "getitem df key = Inr c" and kg: "getitem df grp = Inr g"
    and ne: "grp \<noteq> key"
  shows "\<exists>out ix.
           sort_values2 (setitem df key (to_numeric L c)) grp key True False = Inr out
         \<and> reordered df key (to_numeric L c) ix out
         \<and> (\<forall>p q. p < nrows df \<and> q < nrows df
                \<and> cells (take_col ix g) ! p = cells (take_col ix g) ! q
                \<and> cells (take_col ix (to_numeric L c)) ! p = NA
                \<and> cells (take_col ix (to_numeric L c)) ! q \<noteq> NA
                \<longrightarrow> q < p)"
proof -
  from coerce_then_sort_two_keys [OF wf kc kg ne, of L]
  obtain ix where perm: "mset ix = mset [0..<nrows df]"
    and run: "sort_values2 (setitem df key (to_numeric L c)) grp key True False
              = Inr (take_rows (setitem df key (to_numeric L c)) ix)"
    and ord: "\<forall>p q. p < q \<and> q < nrows df \<longrightarrow>
               scalar_le (cells (take_col ix g) ! p) (cells (take_col ix g) ! q)
               \<and> (cells (take_col ix g) ! p = cells (take_col ix g) ! q \<longrightarrow>
                    scalar_ge (cells (take_col ix (to_numeric L c)) ! p)
                              (cells (take_col ix (to_numeric L c)) ! q))"
    by blast
  from na_last_two_keys [OF ord]
  have "\<forall>p q. p < nrows df \<and> q < nrows df
                \<and> cells (take_col ix g) ! p = cells (take_col ix g) ! q
                \<and> cells (take_col ix (to_numeric L c)) ! p = NA
                \<and> cells (take_col ix (to_numeric L c)) ! q \<noteq> NA
                \<longrightarrow> q < p"
    by blast
  with run reordered_take_rows [OF perm] show ?thesis by blast
qed

lemma one_key_rule_missing_last:
  assumes wf: "wf_frame df" and kc: "getitem df key = Inr c"
    and ok: "argsort_ok (argsort_num L)"
  shows "\<exists>out ix.
           sort_values L (setitem df key (to_numeric L c)) key = Inr out
         \<and> reordered df key (to_numeric L c) ix out
         \<and> (\<forall>p q. p < q \<and> q < nrows df \<longrightarrow>
                scalar_le (cells (take_col ix (to_numeric L c)) ! p)
                          (cells (take_col ix (to_numeric L c)) ! q))
         \<and> (\<forall>p q. p < nrows df \<and> q < nrows df
                \<and> cells (take_col ix (to_numeric L c)) ! p = NA
                \<and> cells (take_col ix (to_numeric L c)) ! q \<noteq> NA
                \<longrightarrow> q < p)"
proof -
  from coerce_then_sort [OF wf kc ok]
  obtain ix where perm: "mset ix = mset [0..<nrows df]"
    and run: "sort_values L (setitem df key (to_numeric L c)) key
              = Inr (take_rows (setitem df key (to_numeric L c)) ix)"
    and ord: "\<forall>p q. p < q \<and> q < nrows df \<longrightarrow>
                  scalar_le (cells (take_col ix (to_numeric L c)) ! p)
                            (cells (take_col ix (to_numeric L c)) ! q)"
    by blast
  from na_last_one_key [OF ord]
  have "\<forall>p q. p < nrows df \<and> q < nrows df
                \<and> cells (take_col ix (to_numeric L c)) ! p = NA
                \<and> cells (take_col ix (to_numeric L c)) ! q \<noteq> NA
                \<longrightarrow> q < p"
    by blast
  with run ord reordered_take_rows [OF perm] show ?thesis by blast
qed

text \<open>
  \<^bold>\<open>C10\<close>, amended. In the output of table 3 every row whose year is missing comes after
  every row whose year parsed. In the outputs of tables 1 and 2 a row whose accuracy (speed)
  is missing comes after every row of the same dataset (hardware) whose accuracy (speed)
  parsed. In all three the output is the input with the key column coerced and the rows
  permuted: labels and the cells of the other columns stay with their rows.
\<close>

theorem missing_keys_last:
  assumes "wf_frame df"
  shows "(argsort_ok (argsort_num L) \<and> getitem df ''Year'' = Inr yr \<longrightarrow>
            (\<exists>out ix. table3_transform L df = Inr out
               \<and> reordered df ''Year'' (to_numeric L yr) ix out
               \<and> (\<forall>p q. p < nrows df \<and> q < nrows df
                      \<and> cells (take_col ix (to_numeric L yr)) ! p = NA
                      \<and> cells (take_col ix (to_numeric L yr)) ! q \<noteq> NA
                      \<longrightarrow> q < p)))
       \<and> (getitem df ''Accuracy (%)'' = Inr acc \<and> getitem df ''Dataset'' = Inr ds \<longrightarrow>
            (\<exists>out ix. table1_transform L df = Inr out
               \<and> reordered df ''Accuracy (%)'' (to_numeric L acc) ix out
               \<and> (\<forall>p q. p < nrows df \<and> q < nrows df
                      \<and> cells (take_col ix ds) ! p = cells (take_col ix ds) ! q
                      \<and> cells (take_col ix (to_numeric L acc)) ! p = NA
                      \<and> cells (take_col ix (to_numeric L acc)) ! q \<noteq> NA
                      \<longrightarrow> q < p)))
       \<and> (getitem df ''Inference Speed (img/s)'' = Inr sp \<and> getitem df ''Hardware'' = Inr hw \<longrightarrow>
            (\<exists>out ix. table2_transform L df = Inr out
               \<and> reordered df ''Inference Speed (img/s)'' (to_numeric L sp) ix out
               \<and> (\<forall>p q. p < nrows df \<and> q < nrows df
                      \<and> cells (take_col ix hw) ! p = cells (take_col ix hw) ! q
                      \<and> cells (take_col ix (to_numeric L sp)) ! p = NA
                      \<and> cells (take_col ix (to_numeric L sp)) ! q \<noteq> NA
                      \<longrightarrow> q < p)))"
proof (intro conjI impI)
  assume h: "argsort_ok (argsort_num L) \<and> getitem df ''Year'' = Inr yr"
  then have r: "table3_transform L df
                = sort_values L (setitem df ''Year'' (to_numeric L yr)) ''Year''"
    by (simp add: table3_transform_def)
  from h one_key_rule_missing_last [OF assms, of "''Year''" yr L]
  show "\<exists>out ix. table3_transform L df = Inr out
               \<and> reordered df ''Year'' (to_numeric L yr) ix out
               \<and> (\<forall>p q. p < nrows df \<and> q < nrows df
                      \<and> cells (take_col ix (to_numeric L yr)) ! p = NA
                      \<and> cells (take_col ix (to_numeric L yr)) ! q \<noteq> NA
                      \<longrightarrow> q < p)"
    unfolding r by blast
next
  assume h: "getitem df ''Accuracy (%)'' = Inr acc \<and> getitem df ''Dataset'' = Inr ds"
  then have r: "table1_transform L df
                = sort_values2 (setitem df ''Accuracy (%)'' (to_numeric L acc))
                    ''Dataset'' ''Accuracy (%)'' True False"
    by (simp add: table1_transform_def)
  have ne: "''Dataset'' \<noteq> ''Accuracy (%)''" by simp
  from h two_key_rule_missing_last [OF assms _ _ ne, of acc ds L]
  show "\<exists>out ix. table1_transform L df = Inr out
               \<and> reordered df ''Accuracy (%)'' (to_numeric L acc) ix out
               \<and> (\<forall>p q. p < nrows df \<and> q < nrows df
                      \<and> cells (take_col ix ds) ! p = cells (take_col ix ds) ! q
                      \<and> cells (take_col ix (to_numeric L acc)) ! p = NA
                      \<and> cells (take_col ix (to_numeric L acc)) ! q \<noteq> NA
                      \<longrightarrow> q < p)"
    unfolding r by blast
next
  assume h: "getitem df ''Inference Speed (img/s)'' = Inr sp \<and> getitem df ''Hardware'' = Inr hw"
  then have r: "table2_transform L df
                = sort_values2 (setitem df ''Inference Speed (img/s)'' (to_numeric L sp))
                    ''Hardware'' ''Inference Speed (img/s)'' True False"
    by (simp add: table2_transform_def)
  have ne: "''Hardware'' \<noteq> ''Inference Speed (img/s)''" by simp
  from h two_key_rule_missing_last [OF assms _ _ ne, of sp hw L]
  show "\<exists>out ix. table2_transform L df = Inr out
               \<and> reordered df ''Inference Speed (img/s)'' (to_numeric L sp) ix out
               \<and> (\<forall>p q. p < nrows df \<and> q < nrows df
                      \<and> cells (take_col ix hw) ! p = cells (take_col ix hw) ! q
                      \<and> cells (take_col ix (to_numeric L sp)) ! p = NA
                      \<and> cells (take_col ix (to_numeric L sp)) ! q \<noteq> NA
                      \<longrightarrow> q < p)"
    unfolding r by blast
qed

lemma ex_table3_facts:
  "wf_frame ex_table3"
  "getitem ex_table3 ''Year'' = Inr (Obj [Some ''2010'', Some ''n/a'', Some ''1999''])"
  by (simp_all add: ex_table3_def wf_frame_def getitem_def nrows_def)

lemma ex_table2_facts:
  "wf_frame ex_table2"
  "getitem ex_table2 ''Inference Speed (img/s)'' = Inr (Obj [Some ''fast'', Some ''120''])"
  "getitem ex_table2 ''Hardware'' = Inr (Obj [Some ''GPU'', Some ''GPU''])"
  by (simp_all add: ex_table2_def wf_frame_def getitem_def nrows_def)

lemma nargsort_ex3:
  "nargsort_with stable_argsort [Some (2010::rat), None, Some 1999] = [2, 0, 1]"
  by (simp add: nargsort_with_def stable_argsort_def upt_rec)

lemma ex_table3_run:
  "table3_transform plain_lib ex_table3 =
     Inr \<lparr>index = [2, 0, 1],
          cols = [(''Dataset'', Obj [Some ''C'', Some ''A'', Some ''B'']),
                  (''Year'', Nums [Some 1999, Some 2010, None])]\<rparr>"
  by (simp add: table3_transform_def ex_table3_def getitem_def setitem_def sort_values_def
      plain_lib_def dec_defs take_rows_def nargsort_ex3)

lemma ex_table2_run:
  "table2_transform plain_lib ex_table2 =
     Inr \<lparr>index = [1, 0],
          cols = [(''Hardware'', Obj [Some ''GPU'', Some ''GPU'']),
                  (''Inference Speed (img/s)'', Nums [Some 120, None])]\<rparr>"
  by code_simp

theorem missing_keys_last_witness:
  "(wf_frame ex_table3 \<and> argsort_ok (argsort_num plain_lib)
    \<and> getitem ex_table3 ''Year'' = Inr (Obj [Some ''2010'', Some ''n/a'', Some ''1999''])
    \<and> (\<exists>out ix. table3_transform plain_lib ex_table3 = Inr out
          \<and> reordered ex_table3 ''Year''
               (to_numeric plain_lib (Obj [Some ''2010'', Some ''n/a'', Some ''1999''])) ix out)
    \<and> table3_transform plain_lib ex_table3 =
        Inr \<lparr>index = [2, 0, 1],
             cols = [(''Dataset'', Obj [Some ''C'', Some ''A'', Some ''B'']),
                     (''Year'', Nums [Some 1999, Some 2010, None])]\<rparr>)
   \<and> (wf_frame ex_table1
    \<and> getitem ex_table1 ''Accuracy (%)'' = Inr (Obj [Some ''90.5'', Some ''n/a'', Some ''99''])
    \<and> getitem ex_table1 ''Dataset''
        = Inr (Obj [Some ''WM-811K'', Some ''MixedWM38'', Some ''WM-811K''])
    \<and> (\<exists>out ix. table1_transform plain_lib ex_table1 = Inr out
          \<and> reordered ex_table1 ''Accuracy (%)''
               (to_numeric plain_lib (Obj [Some ''90.5'', Some ''n/a'', Some ''99''])) ix out))
   \<and> (wf_frame ex_table2
    \<and> getitem ex_table2 ''Inference Speed (img/s)'' = Inr (Obj [Some ''fast'', Some ''120''])
    \<and> getitem ex_table2 ''Hardware'' = Inr (Obj [Some ''GPU'', Some ''GPU''])
    \<and> (\<exists>out ix. table2_transform plain_lib ex_table2 = Inr out
          \<and> reordered ex_table2 ''Inference Speed (img/s)''
               (to_numeric plain_lib (Obj [Some ''fast'', Some ''120''])) ix out))"
proof -
  note t3 = missing_keys_last [where L = plain_lib, OF ex_table3_facts(1), THEN conjunct1, THEN mp,
      OF conjI [OF plain_argsort_ok ex_table3_facts(2)]]
  note t1 = missing_keys_last [where L = plain_lib, OF ex_table1_facts(1), THEN conjunct2, THEN conjunct1, THEN mp,
      OF conjI [OF ex_table1_facts(2) ex_table1_facts(3)]]
  note t2 = missing_keys_last [where L = plain_lib, OF ex_table2_facts(1), THEN conjunct2, THEN conjunct2, THEN mp,
      OF conjI [OF ex_table2_facts(2) ex_table2_facts(3)]]
  have a: "\<exists>out ix. table3_transform plain_lib ex_table3 = Inr out
          \<and> reordered ex_table3 ''Year''
               (to_numeric plain_lib (Obj [Some ''2010'', Some ''n/a'', Some ''1999''])) ix out"
    using t3 by blast
  have b: "\<exists>out ix. table1_transform plain_lib ex_table1 = Inr out
          \<and> reordered ex_table1 ''Accuracy (%)''
               (to_numeric plain_lib (Obj [Some ''90.5'', Some ''n/a'', Some ''99''])) ix out"
    using t1 by blast
  have c: "\<exists>out ix. table2_transform plain_lib ex_table2 = Inr out
          \<and> reordered ex_table2 ''Inference Speed (img/s)''
               (to_numeric plain_lib (Obj [Some ''fast'', Some ''120''])) ix out"
    using t2 by blast
  show ?thesis
    by (intro conjI a b c plain_argsort_ok ex_table1_facts ex_table2_facts ex_table3_facts
        ex_table3_run)
qed

subsection \<open>The pattern of table 7\<close>

lemma match_here_Lit:
  "match_here ((Lit c, n) # r) s = Some m
   \<Longrightarrow> \<exists>m'. m = replicate n c @ m' \<and> match_here r (drop n s) = Some m'"
proof (induction n arbitrary: s m)
  case 0
  then show ?case by simp
next
  case (Suc n)
  show ?case
  proof (cases s)
    case Nil
    with Suc.prems show ?thesis by simp
  next
    case (Cons x xs)
    with Suc.prems obtain m0 where x: "x = c" and m: "m = x # m0"
      and rest: "match_here ((Lit c, n) # r) xs = Some m0"
      by (auto split: if_splits)
    from Suc.IH [OF rest] obtain m' where "m0 = replicate n c @ m'"
      and "match_here r (drop n xs) = Some m'" by blast
    with x m Cons show ?thesis by simp
  qed
qed

lemma match_here_era: "match_here era_regex s = Some m \<Longrightarrow> m = era_match"
proof -
  assume "match_here era_regex s = Some m"
  then have "match_here ((Lit (CHR 0x5C), 1) # [(Lit CHR ''d'', 4)]) s = Some m"
    by (simp add: era_regex_def)
  from match_here_Lit [OF this] obtain m1 where m: "m = replicate 1 (CHR 0x5C) @ m1"
    and r: "match_here ((Lit CHR ''d'', 4) # []) (drop 1 s) = Some m1" by blast
  from match_here_Lit [OF r] obtain m2 where "m1 = replicate 4 CHR ''d'' @ m2"
    and "match_here [] (drop 4 (drop 1 s)) = Some m2" by blast
  with m show ?thesis by (simp add: era_match_def eval_nat_numeral)
qed

lemma search_era: "search era_regex s = Some m \<Longrightarrow> m = era_match"
  by (induction s) (auto split: option.splits dest: match_here_era)

lemma astype_float_all_missing:
  "\<forall>v \<in> set vs. v = None \<Longrightarrow> astype_float L vs = Inr (replicate (length vs) None)"
  by (induction vs) auto

lemma astype_float_raises:
  assumes "\<forall>s. Some s \<in> set vs \<longrightarrow> s = t" "py_float L t = None" "\<exists>s. Some s \<in> set vs"
  shows "astype_float L vs = Inl (ValueError t)"
  using assms
proof (induction vs)
  case Nil
  then show ?case by simp
next
  case (Cons v vs)
  show ?case
  proof (cases v)
    case (Some s)
    with Cons.prems have "s = t" by simp
    with Some Cons.prems(2) show ?thesis by simp
  next
    case None
    with Cons.prems have "\<exists>s. Some s \<in> set vs" by auto
    with Cons None show ?thesis by simp
  qed
qed

lemma nargsort_all_missing:
  assumes "argsort_ok asort" "\<forall>v \<in> set vs. v = None"
  shows "nargsort_with asort vs = [0..<length vs]"
proof -
  have a: "filter (\<lambda>i. vs ! i \<noteq> None) [0..<length vs] = []"
    using assms(2) by (auto simp: filter_empty_conv)
  have b: "filter (\<lambda>i. vs ! i = None) [0..<length vs] = [0..<length vs]"
    using assms(2) by (auto simp: filter_id_conv)
  have "mset (asort []) = mset []" using argsort_okD(1) [OF assms(1), of "[]"] by simp
  then have c: "asort [] = []" by simp
  show ?thesis unfolding nargsort_with_eq a b by (simp add: c)
qed

lemma length_cells [simp]: "length (cells c) = col_len c"
  by (cases c) simp_all

lemma length_astype_str [simp]: "length (astype_str L c) = col_len c"
  by (simp add: astype_str_def)

lemma table7_no_match:
  assumes wf: "wf_frame df" and ok: "argsort_ok (argsort_num L)"
    and era: "getitem df ''Era'' = Inr era"
    and nm: "\<forall>s \<in> set (astype_str L era). search era_regex s = None"
  shows "table7_transform L df = Inr (df\<lparr>cols := AList.delete ''era_numeric'' (cols df)\<rparr>)"
proof -
  let ?ex = "str_extract era_regex (astype_str L era)"
  let ?na = "replicate (nrows df) (None :: rat option)"
  let ?df = "setitem df ''era_numeric'' (Nums ?na)"
  have all: "\<forall>v \<in> set ?ex. v = None" using nm by (auto simp: str_extract_def)
  have len: "length ?ex = nrows df"
    using getitem_col_len [OF wf era] by (simp add: str_extract_def)
  have af: "astype_float L ?ex = Inr ?na"
    using astype_float_all_missing [OF all, of L] unfolding len .
  have wf': "wf_frame ?df" by (rule wf_setitem [OF wf]) simp
  have k: "getitem ?df ''era_numeric'' = Inr (Nums ?na)" by (simp add: getitem_setitem)
  have ix: "nargsort L (Nums ?na) = [0..<nrows ?df]"
    using nargsort_all_missing [OF ok, of ?na] by simp
  have "sort_values L ?df ''era_numeric'' = Inr (take_rows ?df [0..<nrows ?df])"
    unfolding sort_values_def k ix [symmetric] by simp
  then have sv: "sort_values L ?df ''era_numeric'' = Inr ?df"
    unfolding take_rows_upt [OF wf'] .
  have "''era_numeric'' \<in> fst ` set (cols ?df)" by (simp add: setitem_def dom_update)
  then have dr: "drop_columns ?df ''era_numeric''
                 = Inr (df\<lparr>cols := AList.delete ''era_numeric'' (cols df)\<rparr>)"
    by (simp add: drop_columns_def setitem_def delete_update_same)
  show ?thesis unfolding table7_transform_def era by (simp add: af sv dr)
qed

lemma table7_match:
  assumes era: "getitem df ''Era'' = Inr era" and pf: "py_float L era_match = None"
    and m: "\<exists>s \<in> set (astype_str L era). search era_regex s \<noteq> None"
  shows "table7_transform L df = Inl (ValueError era_match)"
proof -
  let ?ex = "str_extract era_regex (astype_str L era)"
  have a: "\<forall>s. Some s \<in> set ?ex \<longrightarrow> s = era_match"
    by (auto simp: str_extract_def dest: search_era [OF sym])
  have b: "\<exists>s. Some s \<in> set ?ex"
    using m by (force simp: str_extract_def image_iff)
  from astype_float_raises [OF a pf b] show ?thesis
    unfolding table7_transform_def era by simp
qed

lemma ex_table7_facts:
  "wf_frame ex_table7"
  "getitem ex_table7 ''Era'' = Inr (Obj [Some ''2010s'', Some ''1990s''])"
  "wf_frame ex_table7_bad"
  "getitem ex_table7_bad ''Era'' = Inr (Obj [Some ''1990s'', Some (''see '' @ era_match)])"
  by (simp_all add: ex_table7_def ex_table7_bad_def wf_frame_def getitem_def nrows_def)

lemma ex_table7_extract:
  "str_extract era_regex (astype_str plain_lib (Obj [Some ''2010s'', Some ''1990s'']))
     = [None, None]"
  "str_extract year_regex (astype_str plain_lib (Obj [Some ''2010s'', Some ''1990s'']))
     = [Some ''2010'', Some ''1990'']"
  "str_extract era_regex
     (astype_str plain_lib (Obj [Some ''1990s'', Some (''see '' @ era_match)]))
     = [None, Some era_match]"
  by (simp_all add: str_extract_def astype_str_def py_str_def era_regex_def year_regex_def
      era_match_def eval_nat_numeral)

lemma plain_float_era_match: "py_float plain_lib era_match = None"
  by (simp add: plain_lib_def era_match_def dec_defs)

text \<open>
  \<^bold>\<open>C1.\<close> The two rows below have the years 2010 and 1990 in their era text, as the
  four-digit pattern finds them. The pattern of line 67 finds no year in either, so the
  helper column is all missing, the sort moves nothing, and the rule returns the rows in
  input order, 2010s before 1990s: not ascending by year. The helper column is absent.
\<close>

theorem table7_years_not_sorted:
  "str_extract year_regex (astype_str plain_lib (Obj [Some ''2010s'', Some ''1990s'']))
     = [Some ''2010'', Some ''1990'']
   \<and> str_extract era_regex (astype_str plain_lib (Obj [Some ''2010s'', Some ''1990s'']))
     = [None, None]
   \<and> table7_transform plain_lib ex_table7 = Inr ex_table7"
proof -
  have nm: "\<forall>s \<in> set (astype_str plain_lib (Obj [Some ''2010s'', Some ''1990s''])).
              search era_regex s = None"
    using ex_table7_extract(1) by (simp add: str_extract_def astype_str_def)
  have "ex_table7\<lparr>cols := AList.delete ''era_numeric'' (cols ex_table7)\<rparr> = ex_table7"
    by (simp add: ex_table7_def AList.delete_eq)
  with table7_no_match [OF ex_table7_facts(1) plain_argsort_ok ex_table7_facts(2) nm]
  have "table7_transform plain_lib ex_table7 = Inr ex_table7" by simp
  with ex_table7_extract show ?thesis by simp
qed

text \<open>
  \<^bold>\<open>C3.\<close> On a two-row table whose second era cell contains a backslash followed by
  \<^verbatim>\<open>dddd\<close>, the pattern of line 67 matches that text, \<^verbatim>\<open>astype(float)\<close> cannot convert it,
  and the rule of table 7 raises \<^verbatim>\<open>ValueError\<close>: it produces no output rows at all.
\<close>

theorem table7_transform_raises:
  "nrows ex_table7_bad = 2
   \<and> table7_transform plain_lib ex_table7_bad = Inl (ValueError era_match)"
proof -
  have m: "\<exists>s \<in> set (astype_str plain_lib (Obj [Some ''1990s'', Some (''see '' @ era_match)])).
             search era_regex s \<noteq> None"
    using ex_table7_extract(3) by (simp add: str_extract_def astype_str_def)
  from table7_match [OF ex_table7_facts(4) plain_float_era_match m]
  show ?thesis by (simp add: nrows_def ex_table7_bad_def)
qed

subsection \<open>Row counts and coercion steps\<close>

lemma nrows_reordered: "reordered df key k ix out \<Longrightarrow> nrows out = nrows df"
  unfolding reordered_def by blast

lemma astype_float_length: "astype_float L vs = Inr ys \<Longrightarrow> length ys = length vs"
proof (induction vs arbitrary: ys)
  case Nil
  then show ?case by simp
next
  case (Cons v vs)
  then show ?case by (cases v) (auto split: sum.splits option.splits)
qed

lemma nrows_drop_columns: "drop_columns df name = Inr out \<Longrightarrow> nrows out = nrows df"
  by (auto simp: drop_columns_def nrows_def split: if_splits)

lemma table7_rows_if_returns:
  assumes wf: "wf_frame df" and ok: "argsort_ok (argsort_num L)"
    and r: "table7_transform L df = Inr out"
  shows "nrows out = nrows df"
proof -
  from r obtain era ys sorted_df where era: "getitem df ''Era'' = Inr era"
    and ys: "astype_float L (str_extract era_regex (astype_str L era)) = Inr ys"
    and sv: "sort_values L (setitem df ''era_numeric'' (Nums ys)) ''era_numeric'' = Inr sorted_df"
    and dr: "drop_columns sorted_df ''era_numeric'' = Inr out"
    unfolding table7_transform_def by (auto split: sum.splits)
  have "length ys = nrows df"
    using astype_float_length [OF ys] getitem_col_len [OF wf era] by (simp add: str_extract_def)
  moreover have "sorted_df = take_rows (setitem df ''era_numeric'' (Nums ys))
                              (nargsort_with (argsort_num L) ys)"
    using sv by (simp add: sort_values_def getitem_setitem)
  moreover have "length (nargsort_with (argsort_num L) ys) = length ys"
    using mset_nargsort_with [OF ok, of ys] by (rule perm_upt_nth(1))
  ultimately have "nrows sorted_df = nrows df" by simp
  with nrows_drop_columns [OF dr] show ?thesis by simp
qed

text \<open>
  The rules of tables 1 to 6 return a frame with as many rows as the input for every
  well-formed frame that has their columns; the rule of table 7 does so whenever it returns.
\<close>

lemma rules_keep_rows:
  assumes wf: "wf_frame df"
  shows "getitem df ''Accuracy (%)'' = Inr a \<Longrightarrow> getitem df ''Dataset'' = Inr d
         \<Longrightarrow> \<exists>out. table1_transform L df = Inr out \<and> nrows out = nrows df"
    and "getitem df ''Inference Speed (img/s)'' = Inr s \<Longrightarrow> getitem df ''Hardware'' = Inr h
         \<Longrightarrow> \<exists>out. table2_transform L df = Inr out \<and> nrows out = nrows df"
    and "getitem df ''Year'' = Inr y \<Longrightarrow> argsort_ok (argsort_num L)
         \<Longrightarrow> \<exists>out. table3_transform L df = Inr out \<and> nrows out = nrows df"
    and "table4_transform L df = Inr df"
    and "table5_transform L df = Inr df"
    and "table6_transform L df = Inr df"
    and "argsort_ok (argsort_num L) \<Longrightarrow> table7_transform L df = Inr out
         \<Longrightarrow> nrows out = nrows df"
proof -
  have ne1: "''Dataset'' \<noteq> ''Accuracy (%)''" and ne2: "''Hardware'' \<noteq> ''Inference Speed (img/s)''"
    by simp_all
  show "\<exists>out. table1_transform L df = Inr out \<and> nrows out = nrows df"
    if k: "getitem df ''Accuracy (%)'' = Inr a" "getitem df ''Dataset'' = Inr d"
    using two_key_rule_missing_last [OF wf k ne1, of L] k(1) nrows_reordered
    unfolding table1_transform_def by (simp only: sum.case) blast
  show "\<exists>out. table2_transform L df = Inr out \<and> nrows out = nrows df"
    if k: "getitem df ''Inference Speed (img/s)'' = Inr s" "getitem df ''Hardware'' = Inr h"
    using two_key_rule_missing_last [OF wf k ne2, of L] k(1) nrows_reordered
    unfolding table2_transform_def by (simp only: sum.case) blast
  show "\<exists>out. table3_transform L df = Inr out \<and> nrows out = nrows df"
    if k: "getitem df ''Year'' = Inr y" and ok: "argsort_ok (argsort_num L)"
    using one_key_rule_missing_last [OF wf k ok] k nrows_reordered
    unfolding table3_transform_def by (simp only: sum.case) blast
  show "table4_transform L df = Inr df" "table5_transform L df = Inr df"
    "table6_transform L df = Inr df"
    by (simp_all add: table4_transform_def table5_transform_def table6_transform_def)
  show "nrows out = nrows df"
    if "argsort_ok (argsort_num L)" "table7_transform L df = Inr out"
    using table7_rows_if_returns [OF wf that] .
qed

lemma figure2_returns:
  assumes wf: "wf_frame df" and ok: "argsort_ok (argsort_num L)"
    and y: "getitem df ''year'' = Inr yr"
    and a: "getitem df ''accuracy_pct'' = Inr acc"
    and s: "getitem df ''defect_size_nm'' = Inr sz"
  shows "\<exists>out. figure2_frame L df = Inr out \<and> nrows out = nrows df
           \<and> (\<exists>ix. getitem out ''year'' = Inr (take_col ix (to_numeric L yr))
                  \<and> getitem out ''accuracy_pct'' = Inr (take_col ix (to_numeric L acc))
                  \<and> getitem out ''defect_size_nm'' = Inr (take_col ix (to_numeric L sz)))"
proof -
  let ?d1 = "setitem df ''year'' (to_numeric L yr)"
  let ?d2 = "setitem ?d1 ''accuracy_pct'' (to_numeric L acc)"
  let ?d3 = "setitem ?d2 ''defect_size_nm'' (to_numeric L sz)"
  have n: "col_len yr = nrows df" "col_len acc = nrows df" "col_len sz = nrows df"
    using getitem_col_len [OF wf] y a s by blast+
  have wf1: "wf_frame ?d1" by (rule wf_setitem [OF wf]) (simp add: n)
  have wf2: "wf_frame ?d2" by (rule wf_setitem [OF wf1]) (simp add: n)
  have wf3: "wf_frame ?d3" by (rule wf_setitem [OF wf2]) (simp add: n)
  have g2: "getitem ?d1 ''accuracy_pct'' = Inr acc" using a by (simp add: getitem_setitem)
  have g3: "getitem ?d2 ''defect_size_nm'' = Inr sz" using s by (simp add: getitem_setitem)
  have run: "figure2_frame L df = sort_values L ?d3 ''year''"
    unfolding figure2_frame_def Let_def by (simp add: y g2 g3)
  obtain vs where vs: "to_numeric L yr = Nums vs" using to_numeric_Nums by blast
  have k: "getitem ?d3 ''year'' = Inr (Nums vs)" by (simp add: getitem_setitem vs)
  from sort_numeric_key [OF wf3 k ok] obtain ix
    where perm: "mset ix = mset [0..<nrows ?d3]"
      and sv: "sort_values L ?d3 ''year'' = Inr (take_rows ?d3 ix)" by blast
  have "length ix = nrows df" using perm_upt_nth(1) [OF perm] by simp
  then have "nrows (take_rows ?d3 ix) = nrows df" by simp
  moreover have "getitem (take_rows ?d3 ix) ''year'' = Inr (take_col ix (to_numeric L yr))"
    "getitem (take_rows ?d3 ix) ''accuracy_pct'' = Inr (take_col ix (to_numeric L acc))"
    "getitem (take_rows ?d3 ix) ''defect_size_nm'' = Inr (take_col ix (to_numeric L sz))"
    by (simp_all add: getitem_take_rows getitem_setitem)
  ultimately show ?thesis unfolding run sv by blast
qed

lemma ex_table7_bad_read: "plain_read_csv ex_table7_bad_csv = Inr ex_table7_bad"
  by code_simp

text \<open>
  \<^bold>\<open>C8.\<close> With the file below as its input, \<open>build_table7\<close> ends in the \<^verbatim>\<open>ValueError\<close> that
  \<^verbatim>\<open>astype(float)\<close> raises for the one era cell in which the pattern of line 67 finds a match:
  the cell does not become a missing value, and the exception ends the run.
\<close>

theorem build_table7_aborts:
  "build_table7 plain_lib ex_world7_bad = Inl (ValueError era_match)"
proof -
  have "load_csv plain_lib ex_world7_bad (RAW @ ''table7_evolution_technologies.csv'')
        = Inr ex_table7_bad"
    by (simp add: load_csv_def ex_world7_bad_def plain_lib_def ex_table7_bad_read)
  moreover have "table7_transform plain_lib ex_table7_bad = Inl (ValueError era_match)"
  proof -
    have "\<exists>s \<in> set (astype_str plain_lib (Obj [Some ''1990s'', Some (''see '' @ era_match)])).
            search era_regex s \<noteq> None"
      using ex_table7_extract(3) by (simp add: str_extract_def astype_str_def)
    from table7_match [OF ex_table7_facts(4) plain_float_era_match this] show ?thesis .
  qed
  ultimately show ?thesis by (simp add: build_table7_def)
qed

section \<open>Properties of saving\<close>

lemma csv_tex_differ [simp]: "OUT @ name @ ''.csv'' \<noteq> OUT @ name @ ''.tex''"
  by simp

text \<open>
  \<^bold>\<open>C6.\<close> In \<open>save_table\<close> a failure of the CSV output, of opening the file or of rendering
  the frame, is the result of the call: it propagates. When the CSV output succeeds the call
  returns whatever happens to the LaTeX output: the CSV file holds the rendered frame, a
  failure to open the LaTeX file or to render the frame is printed as
  \<^verbatim>\<open>Could not write LaTeX for ...\<close>, and the line \<^verbatim>\<open>Saved ...\<close> is printed last.
\<close>

theorem save_table_failures:
  "(unwritable w (OUT @ name @ ''.csv'')
      \<longrightarrow> save_table L df name w = Inl (OSError (OUT @ name @ ''.csv'')))
   \<and> (\<not> unwritable w (OUT @ name @ ''.csv'') \<and> to_csv L df = Inl e
      \<longrightarrow> save_table L df name w = Inl e)
   \<and> (\<not> unwritable w (OUT @ name @ ''.csv'') \<and> to_csv L df = Inr text
      \<longrightarrow> (\<exists>w2. save_table L df name w = Inr w2
            \<and> files w2 (OUT @ name @ ''.csv'') = Some text
            \<and> (unwritable w (OUT @ name @ ''.tex'') \<longrightarrow>
                 stdout w2 = stdout w
                   @ [''Could not write LaTeX for '' @ name @ '': ''
                        @ error_text (OSError (OUT @ name @ ''.tex'')),
                      ''Saved '' @ name @ '' -> '' @ OUT @ name @ ''.csv''])
            \<and> (\<not> unwritable w (OUT @ name @ ''.tex'') \<and> to_latex L df = Inl e' \<longrightarrow>
                 stdout w2 = stdout w
                   @ [''Could not write LaTeX for '' @ name @ '': '' @ error_text e',
                      ''Saved '' @ name @ '' -> '' @ OUT @ name @ ''.csv''])
            \<and> (\<not> unwritable w (OUT @ name @ ''.tex'') \<and> to_latex L df = Inr tex \<longrightarrow>
                 files w2 (OUT @ name @ ''.tex'') = Some tex
                 \<and> stdout w2 = stdout w @ [''Saved '' @ name @ '' -> '' @ OUT @ name @ ''.csv''])))"
proof (intro conjI impI)
  assume "unwritable w (OUT @ name @ ''.csv'')"
  then show "save_table L df name w = Inl (OSError (OUT @ name @ ''.csv''))"
    by (simp add: save_table_def frame_to_csv_def)
next
  assume "\<not> unwritable w (OUT @ name @ ''.csv'') \<and> to_csv L df = Inl e"
  then show "save_table L df name w = Inl e"
    by (simp add: save_table_def frame_to_csv_def)
next
  assume h: "\<not> unwritable w (OUT @ name @ ''.csv'') \<and> to_csv L df = Inr text"
  let ?w1 = "write_text (OUT @ name @ ''.csv'') text w"
  have c: "frame_to_csv L df (OUT @ name @ ''.csv'') w = Inr ?w1"
    using h by (simp add: frame_to_csv_def)
  show "\<exists>w2. save_table L df name w = Inr w2
            \<and> files w2 (OUT @ name @ ''.csv'') = Some text
            \<and> (unwritable w (OUT @ name @ ''.tex'') \<longrightarrow>
                 stdout w2 = stdout w
                   @ [''Could not write LaTeX for '' @ name @ '': ''
                        @ error_text (OSError (OUT @ name @ ''.tex'')),
                      ''Saved '' @ name @ '' -> '' @ OUT @ name @ ''.csv''])
            \<and> (\<not> unwritable w (OUT @ name @ ''.tex'') \<and> to_latex L df = Inl e' \<longrightarrow>
                 stdout w2 = stdout w
                   @ [''Could not write LaTeX for '' @ name @ '': '' @ error_text e',
                      ''Saved '' @ name @ '' -> '' @ OUT @ name @ ''.csv''])
            \<and> (\<not> unwritable w (OUT @ name @ ''.tex'') \<and> to_latex L df = Inr tex \<longrightarrow>
                 files w2 (OUT @ name @ ''.tex'') = Some tex
                 \<and> stdout w2 = stdout w @ [''Saved '' @ name @ '' -> '' @ OUT @ name @ ''.csv''])"
  proof (cases "unwritable w (OUT @ name @ ''.tex'')")
    case True
    then show ?thesis
      by (simp add: save_table_def c Let_def write_latex_def write_text_def py_print_def)
  next
    case False
    then show ?thesis
      by (cases "to_latex L df")
        (simp_all add: save_table_def c Let_def write_latex_def write_text_def py_print_def)
  qed
qed

lemma ex_small_render:
  "to_csv plain_lib ex_small = Inr ex_small_csv"
  "to_csv ex_lib_no_latex ex_small = Inr ex_small_csv"
  "to_csv ex_lib_no_csv ex_small = Inl (RenderError ''codec cannot encode character'')"
  "to_latex ex_lib_no_latex ex_small = Inl (RenderError ''Missing optional dependency Jinja2'')"
  "\<exists>tex. to_latex plain_lib ex_small = Inr tex"
  by (simp_all add: plain_lib_def ex_lib_no_latex_def ex_lib_no_csv_def ex_small_def
      ex_small_csv_def render_rows_def cell_text_def nrows_def newline_def)

lemma ex_world_writable:
  "unwritable ex_world_no_csv (OUT @ ''t'' @ ''.csv'')"
  "\<not> unwritable ex_world_no_tex (OUT @ ''t'' @ ''.csv'')"
  "unwritable ex_world_no_tex (OUT @ ''t'' @ ''.tex'')"
  "\<not> unwritable ex_world_open (OUT @ ''t'' @ ''.csv'')"
  "\<not> unwritable ex_world_open (OUT @ ''t'' @ ''.tex'')"
  by (simp_all add: ex_world_no_csv_def ex_world_no_tex_def ex_world_open_def)

theorem save_table_failures_witness:
  "(unwritable ex_world_no_csv (OUT @ ''t'' @ ''.csv'')
    \<and> save_table plain_lib ex_small ''t'' ex_world_no_csv = Inl (OSError (OUT @ ''t'' @ ''.csv'')))
   \<and> (\<not> unwritable ex_world_open (OUT @ ''t'' @ ''.csv'')
    \<and> to_csv ex_lib_no_csv ex_small = Inl (RenderError ''codec cannot encode character'')
    \<and> save_table ex_lib_no_csv ex_small ''t'' ex_world_open
        = Inl (RenderError ''codec cannot encode character''))
   \<and> (\<not> unwritable ex_world_no_tex (OUT @ ''t'' @ ''.csv'')
    \<and> to_csv plain_lib ex_small = Inr ex_small_csv
    \<and> unwritable ex_world_no_tex (OUT @ ''t'' @ ''.tex'')
    \<and> (\<exists>w2. save_table plain_lib ex_small ''t'' ex_world_no_tex = Inr w2
          \<and> files w2 (OUT @ ''t'' @ ''.csv'') = Some ex_small_csv
          \<and> stdout w2 = [''Could not write LaTeX for t: output/tables/t.tex'',
                          ''Saved t -> output/tables/t.csv'']))
   \<and> (\<not> unwritable ex_world_open (OUT @ ''t'' @ ''.csv'')
    \<and> to_csv ex_lib_no_latex ex_small = Inr ex_small_csv
    \<and> \<not> unwritable ex_world_open (OUT @ ''t'' @ ''.tex'')
    \<and> to_latex ex_lib_no_latex ex_small = Inl (RenderError ''Missing optional dependency Jinja2'')
    \<and> (\<exists>w2. save_table ex_lib_no_latex ex_small ''t'' ex_world_open = Inr w2
          \<and> files w2 (OUT @ ''t'' @ ''.csv'') = Some ex_small_csv
          \<and> stdout w2 = [''Could not write LaTeX for t: Missing optional dependency Jinja2'',
                          ''Saved t -> output/tables/t.csv'']))"
proof -
  note a = save_table_failures [where w = ex_world_no_csv and name = "''t''"
        and L = plain_lib and df = ex_small,
      THEN conjunct1, THEN mp, OF ex_world_writable(1)]
  note b = save_table_failures [where w = ex_world_open and name = "''t''"
        and L = ex_lib_no_csv and df = ex_small,
      THEN conjunct2, THEN conjunct1, THEN mp,
      OF conjI [OF ex_world_writable(4) ex_small_render(3)]]
  note c = save_table_failures [where w = ex_world_no_tex and name = "''t''"
        and L = plain_lib and df = ex_small and e' = "OSError []" and tex = "[]",
      THEN conjunct2, THEN conjunct2, THEN mp,
      OF conjI [OF ex_world_writable(2) ex_small_render(1)]]
  note d = save_table_failures [where w = ex_world_open and name = "''t''"
        and L = ex_lib_no_latex and df = ex_small
        and e' = "RenderError ''Missing optional dependency Jinja2''" and tex = "[]",
      THEN conjunct2, THEN conjunct2, THEN mp,
      OF conjI [OF ex_world_writable(4) ex_small_render(2)]]
  have c': "\<exists>w2. save_table plain_lib ex_small ''t'' ex_world_no_tex = Inr w2
          \<and> files w2 (OUT @ ''t'' @ ''.csv'') = Some ex_small_csv
          \<and> stdout w2 = [''Could not write LaTeX for t: output/tables/t.tex'',
                          ''Saved t -> output/tables/t.csv'']"
  proof -
    from c obtain w2 where "save_table plain_lib ex_small ''t'' ex_world_no_tex = Inr w2"
      and "files w2 (OUT @ ''t'' @ ''.csv'') = Some ex_small_csv"
      and "unwritable ex_world_no_tex (OUT @ ''t'' @ ''.tex'') \<longrightarrow>
             stdout w2 = stdout ex_world_no_tex
               @ [''Could not write LaTeX for '' @ ''t'' @ '': ''
                    @ error_text (OSError (OUT @ ''t'' @ ''.tex'')),
                  ''Saved '' @ ''t'' @ '' -> '' @ OUT @ ''t'' @ ''.csv'']"
      by blast
    with ex_world_writable(3) show ?thesis
      by (intro exI [of _ w2]) (simp add: ex_world_no_tex_def OUT_def)
  qed
  have d': "\<exists>w2. save_table ex_lib_no_latex ex_small ''t'' ex_world_open = Inr w2
          \<and> files w2 (OUT @ ''t'' @ ''.csv'') = Some ex_small_csv
          \<and> stdout w2 = [''Could not write LaTeX for t: Missing optional dependency Jinja2'',
                          ''Saved t -> output/tables/t.csv'']"
  proof -
    from d obtain w2 where "save_table ex_lib_no_latex ex_small ''t'' ex_world_open = Inr w2"
      and "files w2 (OUT @ ''t'' @ ''.csv'') = Some ex_small_csv"
      and "\<not> unwritable ex_world_open (OUT @ ''t'' @ ''.tex'')
             \<and> to_latex ex_lib_no_latex ex_small
                 = Inl (RenderError ''Missing optional dependency Jinja2'') \<longrightarrow>
             stdout w2 = stdout ex_world_open
               @ [''Could not write LaTeX for '' @ ''t'' @ '': ''
                    @ error_text (RenderError ''Missing optional dependency Jinja2''),
                  ''Saved '' @ ''t'' @ '' -> '' @ OUT @ ''t'' @ ''.csv'']"
      by blast
    with ex_world_writable(5) ex_small_render(4) show ?thesis
      by (intro exI [of _ w2]) (simp add: ex_world_open_def OUT_def)
  qed
  show ?thesis
    by (intro conjI a b c' d' ex_world_writable ex_small_render)
qed

section \<open>Running twice\<close>

lemma builds_are_jobs:
  "build_table1 L = run_job L (jobs ! 0)" "build_table2 L = run_job L (jobs ! 1)"
  "build_table3 L = run_job L (jobs ! 2)" "build_table4 L = run_job L (jobs ! 3)"
  "build_table5 L = run_job L (jobs ! 4)" "build_table6 L = run_job L (jobs ! 5)"
  "build_table7 L = run_job L (jobs ! 6)"
  by (rule ext, simp add: jobs_def run_job_def build_table1_def build_table2_def
      build_table3_def build_table4_def build_table5_def build_table6_def build_table7_def)+

lemma main_jobs: "main L = run_all (map (run_job L) jobs)"
  unfolding main_def builds_are_jobs by (simp add: jobs_def)

lemma raw_not_out [simp]: "RAW @ raw \<noteq> OUT @ rest"
  by (simp add: RAW_def OUT_def)

lemma out_paths_eq [simp]:
  "OUT @ n @ ''.csv'' = OUT @ m @ ''.csv'' \<longleftrightarrow> n = m"
  "OUT @ n @ ''.tex'' = OUT @ m @ ''.tex'' \<longleftrightarrow> n = m"
  "OUT @ n @ ''.csv'' \<noteq> OUT @ m @ ''.tex''"
  "OUT @ n @ ''.tex'' \<noteq> OUT @ m @ ''.csv''"
  by (simp_all add: append_eq_append_conv)

lemma save_table_frame:
  assumes "save_table L d name w = Inr w1"
  shows "unwritable w1 = unwritable w"
    and "p \<noteq> OUT @ name @ ''.csv'' \<Longrightarrow> p \<noteq> OUT @ name @ ''.tex'' \<Longrightarrow> files w1 p = files w p"
  using assms
  by (auto simp: save_table_def frame_to_csv_def write_latex_def write_text_def py_print_def
      Let_def split: if_splits sum.splits)

lemma save_table_csv:
  assumes "save_table L d name w = Inr w1"
  shows "\<exists>text. to_csv L d = Inr text \<and> files w1 (OUT @ name @ ''.csv'') = Some text
          \<and> \<not> unwritable w (OUT @ name @ ''.csv'')"
  using assms
  by (auto simp: save_table_def frame_to_csv_def write_latex_def write_text_def py_print_def
      Let_def split: if_splits sum.splits)

lemma save_table_rerun:
  assumes s: "save_table L d name w = Inr w1"
    and u: "unwritable w' = unwritable w"
    and c: "files w' (OUT @ name @ ''.csv'') = files w1 (OUT @ name @ ''.csv'')"
    and t: "files w' (OUT @ name @ ''.tex'') = files w1 (OUT @ name @ ''.tex'')"
  shows "\<exists>w2. save_table L d name w' = Inr w2 \<and> files w2 = files w'
              \<and> unwritable w2 = unwritable w'"
proof -
  from save_table_csv [OF s] obtain content where tc: "to_csv L d = Inr content"
    and f1: "files w1 (OUT @ name @ ''.csv'') = Some content"
    and uw: "\<not> unwritable w (OUT @ name @ ''.csv'')" by blast
  have c': "(files w')(OUT @ name @ ''.csv'' \<mapsto> content) = files w'"
    using c f1 by (simp add: fun_upd_idem)
  show ?thesis
  proof (cases "unwritable w (OUT @ name @ ''.tex'')")
    case True
    then show ?thesis
      using tc uw u c'
      by (simp add: save_table_def frame_to_csv_def write_latex_def write_text_def
          py_print_def Let_def)
  next
    case False
    show ?thesis
    proof (cases "to_latex L d")
      case (Inl e)
      then have "files w1 (OUT @ name @ ''.tex'') = Some []"
        using s tc uw False
        by (auto simp: save_table_def frame_to_csv_def write_latex_def write_text_def
            py_print_def Let_def)
      then have "(files w')(OUT @ name @ ''.tex'' \<mapsto> []) = files w'"
        using t by (simp add: fun_upd_idem)
      then show ?thesis
        using tc uw u c' False Inl
        by (simp add: save_table_def frame_to_csv_def write_latex_def write_text_def
            py_print_def Let_def)
    next
      case (Inr tex)
      then have "files w1 (OUT @ name @ ''.tex'') = Some tex"
        using s tc uw False
        by (auto simp: save_table_def frame_to_csv_def write_latex_def write_text_def
            py_print_def Let_def)
      then have "(files w')(OUT @ name @ ''.tex'' \<mapsto> tex) = files w'"
        using t by (simp add: fun_upd_idem)
      then show ?thesis
        using tc uw u c' False Inr
        by (simp add: save_table_def frame_to_csv_def write_latex_def write_text_def
            py_print_def Let_def)
    qed
  qed
qed

lemma run_job_parts:
  assumes "run_job L (raw, rule, name) w = Inr w1"
  shows "\<exists>df d. load_csv L w (RAW @ raw) = Inr df \<and> rule L df = Inr d
                \<and> save_table L d name w = Inr w1"
  using assms by (auto simp: run_job_def split: sum.splits)

lemma load_csv_cong:
  "files w' path = files w path \<Longrightarrow> load_csv L w' path = load_csv L w path"
  by (simp add: load_csv_def)

lemma run_job_frame:
  assumes "run_job L j w = Inr w1"
  shows "unwritable w1 = unwritable w" and "p \<notin> outs j \<Longrightarrow> files w1 p = files w p"
proof -
  obtain raw rule name where j: "j = (raw, rule, name)" by (cases j)
  from run_job_parts [OF assms [unfolded j]] obtain d
    where s: "save_table L d name w = Inr w1" by blast
  show "unwritable w1 = unwritable w" by (rule save_table_frame(1) [OF s])
  assume "p \<notin> outs j"
  then have "p \<noteq> OUT @ name @ ''.csv''" "p \<noteq> OUT @ name @ ''.tex''"
    by (simp_all add: outs_def j)
  then show "files w1 p = files w p" by (rule save_table_frame(2) [OF s])
qed

lemma run_job_rerun:
  assumes r: "run_job L j w = Inr w1"
    and u: "unwritable w' = unwritable w"
    and i: "files w' (RAW @ fst j) = files w (RAW @ fst j)"
    and o: "\<forall>p \<in> outs j. files w' p = files w1 p"
  shows "\<exists>w2. run_job L j w' = Inr w2 \<and> files w2 = files w' \<and> unwritable w2 = unwritable w'"
proof -
  obtain raw rule name where j: "j = (raw, rule, name)" by (cases j)
  from run_job_parts [OF r [unfolded j]] obtain df d
    where l: "load_csv L w (RAW @ raw) = Inr df" and ru: "rule L df = Inr d"
      and s: "save_table L d name w = Inr w1" by blast
  have l': "load_csv L w' (RAW @ raw) = Inr df"
    using load_csv_cong [of w' "RAW @ raw" w L] i l by (simp add: j)
  have "files w' (OUT @ name @ ''.csv'') = files w1 (OUT @ name @ ''.csv'')"
    "files w' (OUT @ name @ ''.tex'') = files w1 (OUT @ name @ ''.tex'')"
    using o by (simp_all add: outs_def j)
  from save_table_rerun [OF s u this] show ?thesis
    by (simp add: run_job_def j l' ru)
qed

lemma run_job_csv_deterministic:
  assumes "run_job L (raw, rule, name) w = Inr w1" "run_job L (raw, rule, name) w' = Inr w1'"
    and "files w' (RAW @ raw) = files w (RAW @ raw)"
  shows "files w1' (OUT @ name @ ''.csv'') = files w1 (OUT @ name @ ''.csv'')"
proof -
  from run_job_parts [OF assms(1)] obtain df d
    where l: "load_csv L w (RAW @ raw) = Inr df" and ru: "rule L df = Inr d"
      and s: "save_table L d name w = Inr w1" by blast
  from run_job_parts [OF assms(2)] obtain df' d'
    where l': "load_csv L w' (RAW @ raw) = Inr df'" and ru': "rule L df' = Inr d'"
      and s': "save_table L d' name w' = Inr w1'" by blast
  have "df' = df" using load_csv_cong [OF assms(3), of L] l l' by simp
  with ru ru' have "d' = d" by simp
  with save_table_csv [OF s] save_table_csv [OF s'] show ?thesis by auto
qed

lemma raw_not_in_outs [simp]: "RAW @ raw \<notin> outs j"
  by (cases j) (simp add: outs_def)

lemma outs_disjoint:
  "snd (snd j) \<noteq> snd (snd k) \<Longrightarrow> p \<in> outs j \<Longrightarrow> p \<notin> outs k"
  by (cases j; cases k) (auto simp: outs_def)

lemma run_all_frame:
  "run_all (map (run_job L) js) w = Inr w1
   \<Longrightarrow> unwritable w1 = unwritable w
       \<and> (\<forall>p. (\<forall>j \<in> set js. p \<notin> outs j) \<longrightarrow> files w1 p = files w p)"
proof (induction js arbitrary: w)
  case Nil
  then show ?case by simp
next
  case (Cons j js)
  from Cons.prems obtain wa where a: "run_job L j w = Inr wa"
    and r: "run_all (map (run_job L) js) wa = Inr w1"
    by (auto split: sum.splits)
  from Cons.IH [OF r] run_job_frame [OF a] show ?case by auto
qed

lemma run_all_rerun:
  assumes "run_all (map (run_job L) js) w = Inr w1"
    and "distinct (map (\<lambda>j. snd (snd j)) js)"
    and "unwritable w' = unwritable w"
    and "\<forall>j \<in> set js. files w' (RAW @ fst j) = files w (RAW @ fst j)"
    and "\<forall>j \<in> set js. \<forall>p \<in> outs j. files w' p = files w1 p"
  shows "\<exists>w2. run_all (map (run_job L) js) w' = Inr w2 \<and> files w2 = files w'
              \<and> unwritable w2 = unwritable w'"
  using assms
proof (induction js arbitrary: w w')
  case Nil
  then show ?case by simp
next
  case (Cons j js)
  from Cons.prems(1) obtain wa where a: "run_job L j w = Inr wa"
    and r: "run_all (map (run_job L) js) wa = Inr w1"
    by (auto split: sum.splits)
  note fa = run_job_frame [OF a]
  note fr = run_all_frame [OF r]
  have oj: "\<forall>p \<in> outs j. files w' p = files wa p"
  proof
    fix p assume p: "p \<in> outs j"
    have "\<forall>k \<in> set js. p \<notin> outs k"
    proof
      fix k assume "k \<in> set js"
      then have "snd (snd j) \<noteq> snd (snd k)" using Cons.prems(2) by force
      from outs_disjoint [OF this p] show "p \<notin> outs k" .
    qed
    with fr have "files w1 p = files wa p" by blast
    with Cons.prems(5) p show "files w' p = files wa p" by simp
  qed
  from run_job_rerun [OF a Cons.prems(3) _ oj] Cons.prems(4)
  obtain wb where b: "run_job L j w' = Inr wb" and fb: "files wb = files w'"
    and ub: "unwritable wb = unwritable w'" by auto
  have d: "distinct (map (\<lambda>j. snd (snd j)) js)" using Cons.prems(2) by simp
  have u: "unwritable wb = unwritable wa" using ub fa(1) Cons.prems(3) by simp
  have i: "\<forall>k \<in> set js. files wb (RAW @ fst k) = files wa (RAW @ fst k)"
    using fb fa(2) Cons.prems(4) by simp
  have o: "\<forall>k \<in> set js. \<forall>p \<in> outs k. files wb p = files w1 p"
    using fb Cons.prems(5) by simp
  from Cons.IH [OF r d u i o] obtain w2
    where "run_all (map (run_job L) js) wb = Inr w2" "files w2 = files wb"
      "unwritable w2 = unwritable wb" by blast
  with b fb ub show ?case by simp
qed

lemma builds_jobs:
  "(b, raw, name) \<in> set (table_builds L) \<Longrightarrow> \<exists>rule. b = run_job L (raw, rule, name)"
  by (auto simp: table_builds_def builds_are_jobs jobs_def)

text \<open>The whole script run twice: the second run leaves every file as the first left it.\<close>

lemma main_rerun_identical:
  assumes "main L w = Inr w1"
  shows "\<exists>w2. main L w1 = Inr w2 \<and> files w2 = files w1"
proof -
  have r: "run_all (map (run_job L) jobs) w = Inr w1" using assms by (simp add: main_jobs)
  have d: "distinct (map (\<lambda>j. snd (snd j)) jobs)" by (simp add: jobs_def)
  note f = run_all_frame [OF r]
  have "\<forall>j \<in> set jobs. files w1 (RAW @ fst j) = files w (RAW @ fst j)" using f by simp
  from run_all_rerun [OF r d conjunct1 [OF f] this] show ?thesis
    by (auto simp: main_jobs)
qed

text \<open>
  \<^bold>\<open>C9.\<close> For each of the seven builds: when a run completes, a second run in the world the
  first one left completes too and changes no file, so it writes the same bytes; and any two
  completed runs that read the same input file write the same CSV file, whatever else the
  two worlds hold. The library's reader, rules and renderers are functions of their
  arguments; the build adds no other input.
\<close>

theorem builds_rerun_identical:
  assumes "(b, raw, name) \<in> set (table_builds L)" and "b w = Inr w1"
  shows "(\<exists>w2. b w1 = Inr w2 \<and> files w2 = files w1)
       \<and> (\<forall>w' w1'. files w' (RAW @ raw) = files w (RAW @ raw) \<and> b w' = Inr w1'
             \<longrightarrow> files w1' (OUT @ name @ ''.csv'') = files w1 (OUT @ name @ ''.csv''))"
proof -
  from builds_jobs [OF assms(1)] obtain rule where b: "b = run_job L (raw, rule, name)"
    by blast
  have r: "run_job L (raw, rule, name) w = Inr w1" using assms(2) b by simp
  note f = run_job_frame [OF r]
  have i: "files w1 (RAW @ fst (raw, rule, name)) = files w (RAW @ fst (raw, rule, name))"
    by (rule f(2)) simp
  from run_job_rerun [OF r f(1) i]
  have "\<exists>w2. b w1 = Inr w2 \<and> files w2 = files w1" unfolding b by blast
  moreover have "files w1' (OUT @ name @ ''.csv'') = files w1 (OUT @ name @ ''.csv'')"
    if "files w' (RAW @ raw) = files w (RAW @ raw)" "b w' = Inr w1'" for w' w1'
    using run_job_csv_deterministic [OF r _ that(1)] that(2) unfolding b by blast
  ultimately show ?thesis by blast
qed

lemma ex_table3_read: "plain_read_csv ex_table3_csv = Inr ex_table3"
  by code_simp

lemma ex_table3_out_render:
  "to_csv plain_lib \<lparr>index = [2, 0, 1],
          cols = [(''Dataset'', Obj [Some ''C'', Some ''A'', Some ''B'']),
                  (''Year'', Nums [Some 1999, Some 2010, None])]\<rparr> = Inr ex_table3_out_csv"
  by (simp add: plain_lib_def render_rows_def cell_text_def plain_num_str_def nrows_def
      ex_table3_out_csv_def newline_def upt_rec)

lemma plain_read: "read_csv plain_lib = plain_read_csv"
  by (simp add: plain_lib_def)

lemma save_table_succeeds:
  assumes "\<not> unwritable w (OUT @ name @ ''.csv'')" "to_csv L d = Inr content"
  shows "\<exists>w1. save_table L d name w = Inr w1
              \<and> files w1 (OUT @ name @ ''.csv'') = Some content"
proof (cases "write_latex L d (OUT @ name @ ''.tex'') (write_text (OUT @ name @ ''.csv'') content w)")
  case (Pair r w')
  then have "files w' (OUT @ name @ ''.csv'') = Some content"
    by (auto simp: write_latex_def write_text_def Let_def split: if_splits sum.splits)
  with Pair assms show ?thesis
    by (cases r) (simp_all add: save_table_def frame_to_csv_def py_print_def Let_def)
qed

theorem builds_rerun_identical_witness:
  "(build_table3 plain_lib, ''table3_datasets.csv'', ''table3_datasets'')
     \<in> set (table_builds plain_lib)
   \<and> (\<exists>w1. build_table3 plain_lib ex_world3 = Inr w1
         \<and> files w1 (OUT @ ''table3_datasets'' @ ''.csv'') = Some ex_table3_out_csv
         \<and> (\<exists>w2. build_table3 plain_lib w1 = Inr w2 \<and> files w2 = files w1))"
proof -
  have m: "(build_table3 plain_lib, ''table3_datasets.csv'', ''table3_datasets'')
             \<in> set (table_builds plain_lib)"
    by (simp add: table_builds_def)
  have l: "load_csv plain_lib ex_world3 (RAW @ ''table3_datasets.csv'') = Inr ex_table3"
    by (simp add: load_csv_def ex_world3_def plain_read ex_table3_read)
  have u: "\<not> unwritable ex_world3 (OUT @ ''table3_datasets'' @ ''.csv'')"
    by (simp add: ex_world3_def)
  from save_table_succeeds [OF u ex_table3_out_render] obtain w1
    where s: "save_table plain_lib
                \<lparr>index = [2, 0, 1],
                 cols = [(''Dataset'', Obj [Some ''C'', Some ''A'', Some ''B'']),
                         (''Year'', Nums [Some 1999, Some 2010, None])]\<rparr>
                ''table3_datasets'' ex_world3 = Inr w1"
      and c: "files w1 (OUT @ ''table3_datasets'' @ ''.csv'') = Some ex_table3_out_csv"
    by blast
  have b: "build_table3 plain_lib ex_world3 = Inr w1"
    unfolding build_table3_def l sum.case ex_table3_run by (rule s)
  from builds_rerun_identical [OF m b]
  have "\<exists>w2. build_table3 plain_lib w1 = Inr w2 \<and> files w2 = files w1" by blast
  with m b c show ?thesis by blast
qed

end
